theory Spec2Isabelle
  imports Main "HOL-Library.Multiset" "HOL-Library.Word"
begin

section \<open>Strings\<close>

text \<open>
  A JavaScript string is a sequence of 16-bit code units. The texts the pages lower-case,
  trim and search (names, e-mails, phones, titles, tags, descriptions and the queries) are
  lists of such code units. The strings the code only hands on or compares with the empty
  string (URLs, methods, header names and values, messages, dates) stay of the type
  \<open>string\<close>. \<open>js\<close> gives the code units of a literal.
\<close>

type_synonym jstring = "16 word list"

definition js :: "string \<Rightarrow> jstring" where
  "js s = map of_char s"

text \<open>
  \<^verbatim>\<open>String.prototype.toLowerCase\<close> is the engine's: it depends on the context of a
  letter and may change the length of a string, and it is a parameter \<open>toLowerCase\<close> of
  every definition that calls it, of which nothing is assumed. The scenarios need its
  values on a few strings, and two functions that have these values are given here. On a
  text of Basic Latin and Latin-1, code units below U+0100, it works code unit by code
  unit: A-Z and the accented capitals U+00C0..U+00DE (without the multiplication sign
  U+00D7) move up by 32, every other code unit stays. \<open>toLowerCase_latin1\<close> is used
  with such texts only.
\<close>

definition lower_unit :: "16 word \<Rightarrow> 16 word" where
  "lower_unit c =
     (if (0x41 \<le> c \<and> c \<le> 0x5A) \<or> (0xC0 \<le> c \<and> c \<le> 0xDE \<and> c \<noteq> 0xD7)
      then c + 0x20 else c)"

definition toLowerCase_latin1 :: "jstring \<Rightarrow> jstring" where
  "toLowerCase_latin1 s = map lower_unit s"

text \<open>
  On Greek text a capital sigma (U+03A3) that ends a word becomes the final small sigma
  (U+03C2), any other the small sigma (U+03C3): capital alpha, capital sigma and a space
  become small alpha, final sigma and the space, and a capital sigma alone becomes a
  small sigma. \<open>toLowerCase_sigma\<close> holds these two values of the function and is
  used with these two strings only.
\<close>

definition toLowerCase_sigma :: "jstring \<Rightarrow> jstring" where
  "toLowerCase_sigma s =
     (if s = [0x391, 0x3A3, 0x20] then [0x3B1, 0x3C2, 0x20]
      else if s = [0x3A3] then [0x3C3]
      else s)"

text \<open>
  \<^verbatim>\<open>String.prototype.trim\<close> strips white space and line terminators from both ends:
  TAB, LF, VT, FF, CR, SPACE, NBSP, U+1680, U+2000..U+200A, U+2028, U+2029, U+202F, U+205F,
  U+3000 and U+FEFF, each one code unit.
\<close>

definition is_space :: "16 word \<Rightarrow> bool" where
  "is_space c =
     (c \<in> set [0x9, 0xA, 0xB, 0xC, 0xD, 0x20, 0xA0, 0x1680, 0x2000, 0x2001, 0x2002, 0x2003,
        0x2004, 0x2005, 0x2006, 0x2007, 0x2008, 0x2009, 0x200A, 0x2028, 0x2029, 0x202F,
        0x205F, 0x3000, 0xFEFF])"

definition trim :: "jstring \<Rightarrow> jstring" where
  "trim s = rev (dropWhile is_space (rev (dropWhile is_space s)))"

text \<open>\<^verbatim>\<open>hay.includes(s)\<close>: does \<open>s\<close> occur in \<open>hay\<close> as a contiguous run of code
  units.\<close>

fun startsWith :: "jstring \<Rightarrow> jstring \<Rightarrow> bool" where
  "startsWith hay [] = True"
| "startsWith [] (c # s) = False"
| "startsWith (h # hay) (c # s) = (h = c \<and> startsWith hay s)"

fun str_includes :: "jstring \<Rightarrow> jstring \<Rightarrow> bool" where
  "str_includes [] s = (s = [])"
| "str_includes (h # hay) s = (startsWith (h # hay) s \<or> str_includes hay s)"

text \<open>\<^verbatim>\<open>tags.join(" ")\<close>.\<close>

fun join :: "jstring \<Rightarrow> jstring list \<Rightarrow> jstring" where
  "join sep [] = []"
| "join sep [x] = x"
| "join sep (x # y # ys) = x @ sep @ join sep (y # ys)"

text \<open>\<^verbatim>\<open>x || ""\<close> on an optional string: a missing value and the empty string both give "".\<close>

definition or_empty :: "'a list option \<Rightarrow> 'a list" where
  "or_empty x = (case x of None \<Rightarrow> [] | Some v \<Rightarrow> v)"

text \<open>A number inside a template literal: its decimal digits.\<close>

fun show_nat :: "nat \<Rightarrow> string" where
  "show_nat n =
     (if n < 10 then [char_of (48 + n)]
      else show_nat (n div 10) @ [char_of (48 + n mod 10)])"

declare show_nat.simps [simp del]

definition show_int :: "int \<Rightarrow> string" where
  "show_int i = (if i < 0 then CHR ''-'' # show_nat (nat (- i)) else show_nat (nat i))"

text \<open>\<^verbatim>\<open>when.replace(" ", "T")\<close> with a string pattern: the first occurrence only.\<close>

fun replace_first :: "char \<Rightarrow> char \<Rightarrow> string \<Rightarrow> string" where
  "replace_first a b [] = []"
| "replace_first a b (c # cs) = (if c = a then b # cs else c # replace_first a b cs)"

section \<open>Entities (lib/crm.ts)\<close>

datatype stage = Lead | Client
datatype heat = Hot | Warm | Cold
datatype await_status = Await_none | Awaiting_client | Awaiting_us | Awaiting_payment
datatype column = Novo | Qualificacao | Proposta | Fechamento | Ganho | Perdido
datatype status = Open | Done

text \<open>
  Identities are integers; the monetary \<open>value\<close> of a deal, a JavaScript number, is
  taken as an integer as well. An optional field (\<^verbatim>\<open>phone?: string\<close>) is an option.
  The fields the pages search are \<open>jstring\<close>.
\<close>

record contact =
  c_id :: int
  c_owner_user_id :: int
  c_name :: jstring
  c_phone :: "jstring option"
  c_email :: "jstring option"
  c_stage :: stage
  c_heat :: heat
  c_await_status :: await_status
  c_is_real :: bool
  c_notes :: "string option"
  c_created_at :: string
  c_updated_at :: string

record deal =
  d_id :: int
  d_contact_id :: int
  d_title :: jstring
  d_value :: int
  d_column :: column
  d_priority :: string
  d_due_date :: "string option"
  d_tags :: "jstring list option"
  d_created_at :: string

record obligation =
  o_id :: int
  o_owner_user_id :: int
  o_title :: jstring
  o_description :: "jstring option"
  o_due_date :: string
  o_status :: status
  o_contact_id :: "int option"
  o_created_at :: string

text \<open>
  The payloads: \<^verbatim>\<open>XCreate = Omit<X, ...>\<close> and \<^verbatim>\<open>XUpdate = Partial<XCreate>\<close>, a
  record of options in which \<open>None\<close> is a field the object does not have.
\<close>

record contact_create =
  cc_name :: jstring
  cc_phone :: "jstring option"
  cc_email :: "jstring option"
  cc_stage :: stage
  cc_heat :: heat
  cc_await_status :: await_status
  cc_is_real :: bool
  cc_notes :: "string option"

record contact_update =
  cu_name :: "jstring option"
  cu_phone :: "jstring option"
  cu_email :: "jstring option"
  cu_stage :: "stage option"
  cu_heat :: "heat option"
  cu_await_status :: "await_status option"
  cu_is_real :: "bool option"
  cu_notes :: "string option"

record deal_create =
  dc_contact_id :: int
  dc_title :: jstring
  dc_value :: int
  dc_column :: column
  dc_priority :: string
  dc_due_date :: "string option"
  dc_tags :: "jstring list option"

record deal_update =
  du_contact_id :: "int option"
  du_title :: "jstring option"
  du_value :: "int option"
  du_column :: "column option"
  du_priority :: "string option"
  du_due_date :: "string option"
  du_tags :: "jstring list option"

record obligation_create =
  oc_title :: jstring
  oc_description :: "jstring option"
  oc_due_date :: string
  oc_status :: status
  oc_contact_id :: "int option"

record obligation_update =
  ou_title :: "jstring option"
  ou_description :: "jstring option"
  ou_due_date :: "string option"
  ou_status :: "status option"
  ou_contact_id :: "int option"

definition empty_contact_update :: contact_update where
  "empty_contact_update =
     \<lparr>cu_name = None, cu_phone = None, cu_email = None, cu_stage = None, cu_heat = None,
      cu_await_status = None, cu_is_real = None, cu_notes = None\<rparr>"

definition empty_deal_update :: deal_update where
  "empty_deal_update =
     \<lparr>du_contact_id = None, du_title = None, du_value = None, du_column = None,
      du_priority = None, du_due_date = None, du_tags = None\<rparr>"

definition empty_obligation_update :: obligation_update where
  "empty_obligation_update =
     \<lparr>ou_title = None, ou_description = None, ou_due_date = None, ou_status = None,
      ou_contact_id = None\<rparr>"

section \<open>The HTTP helper (lib/crm.ts)\<close>

text \<open>
  What the helper reads from its surroundings: the build-time variable
  \<^verbatim>\<open>VITE_API_BASE_URL\<close> and the item \<^verbatim>\<open>token\<close> of the local storage
  (\<open>None\<close> when \<^verbatim>\<open>getItem\<close> gives \<^verbatim>\<open>null\<close>).
\<close>

record env =
  vite_api_base_url :: "string option"
  token :: "string option"

definition BASE_URL :: "env \<Rightarrow> string" where
  "BASE_URL e =
     (case vite_api_base_url e of
        None \<Rightarrow> ''http://localhost:8000''
      | Some u \<Rightarrow> if u = [] then ''http://localhost:8000'' else u)"

text \<open>An object of headers is a map from header names to values; spreading one object
  after another is \<open>++\<close>, in which the later object wins.\<close>

type_synonym headers = "string \<rightharpoonup> string"

definition authHeaders :: "env \<Rightarrow> headers" where
  "authHeaders e =
     (case token e of
        None \<Rightarrow> Map.empty
      | Some t \<Rightarrow> if t = [] then Map.empty else [''Authorization'' \<mapsto> ''Bearer '' @ t])"

text \<open>The body of a request is \<^verbatim>\<open>JSON.stringify(payload)\<close>; the model keeps the payload.\<close>

datatype payload =
    ContactCreate contact_create
  | ContactUpdate contact_update
  | DealCreate deal_create
  | DealUpdate deal_update
  | ObligationCreate obligation_create
  | ObligationUpdate obligation_update

record init =
  in_method :: "string option"
  in_body :: "payload option"
  in_headers :: "headers option"

text \<open>
  The arguments of \<^verbatim>\<open>fetch\<close>: the URL without its query string, the entries of the
  \<^verbatim>\<open>URLSearchParams\<close> (\<open>None\<close> when no \<^verbatim>\<open>?\<close> is appended), and the
  options.
\<close>

record request =
  req_url :: string
  req_query :: "(string \<times> string) list option"
  req_method :: "string option"
  req_body :: "payload option"
  req_headers :: headers

type_synonym query = "(string \<times> string option) list"

fun query_entries :: "query \<Rightarrow> (string \<times> string) list" where
  "query_entries [] = []"
| "query_entries ((k, v) # kvs) =
     (case v of
        None \<Rightarrow> query_entries kvs
      | Some x \<Rightarrow> if x = [] then query_entries kvs else (k, x) # query_entries kvs)"

definition http_request :: "env \<Rightarrow> string \<Rightarrow> init option \<Rightarrow> query option \<Rightarrow> request" where
  "http_request e path ini qry =
     \<lparr>req_url = BASE_URL e @ path,
      req_query =
        (case qry of
           None \<Rightarrow> None
         | Some kvs \<Rightarrow> if kvs = [] then None else Some (query_entries kvs)),
      req_method = (case ini of None \<Rightarrow> None | Some i \<Rightarrow> in_method i),
      req_body = (case ini of None \<Rightarrow> None | Some i \<Rightarrow> in_body i),
      req_headers =
        [''Content-Type'' \<mapsto> ''application/json''] ++ authHeaders e ++
        (case ini of
           None \<Rightarrow> Map.empty
         | Some i \<Rightarrow> (case in_headers i of None \<Rightarrow> Map.empty | Some h \<Rightarrow> h))\<rparr>"

text \<open>
  What \<^verbatim>\<open>fetch\<close> answers: it rejects (a transport error, with its message), or it
  gives a response with a status, the result of \<^verbatim>\<open>res.text()\<close> (\<open>None\<close> when that
  promise rejects) and the result of \<^verbatim>\<open>res.json()\<close> (\<open>Inl\<close> the message of the error
  it rejects with, \<open>Inr\<close> the parsed body, taken at the type the caller casts it to).
\<close>

record 'a response =
  res_status :: nat
  res_text :: "string option"
  res_json :: "string + 'a"

datatype 'a fetch_result = NetworkError string | Response "'a response"

text \<open>A settled promise; a rejection carries the message of its error.\<close>

datatype 'a outcome = Resolved 'a | Rejected string

text \<open>\<^verbatim>\<open>res.ok\<close>: the status is in the range 200-299.\<close>

definition res_ok :: "'a response \<Rightarrow> bool" where
  "res_ok r = (200 \<le> res_status r \<and> res_status r \<le> 299)"

definition http_settle :: "'a fetch_result \<Rightarrow> 'a outcome" where
  "http_settle fr =
     (case fr of
        NetworkError m \<Rightarrow> Rejected m
      | Response r \<Rightarrow>
          if \<not> res_ok r then
            (let text = (case res_text r of None \<Rightarrow> [] | Some t \<Rightarrow> t)
             in Rejected (if text \<noteq> [] then text else ''HTTP '' @ show_nat (res_status r)))
          else (case res_json r of Inl m \<Rightarrow> Rejected m | Inr v \<Rightarrow> Resolved v))"

text \<open>The helper: it builds the request, awaits \<open>fetch\<close> (the network, a parameter) and
  settles.\<close>

definition http ::
  "env \<Rightarrow> (request \<Rightarrow> 'a fetch_result) \<Rightarrow> string \<Rightarrow> init option \<Rightarrow> query option \<Rightarrow> 'a outcome" where
  "http e fetch path ini qry = http_settle (fetch (http_request e path ini qry))"

subsection \<open>The thirteen calls\<close>

datatype crm_call =
    ListContacts
  | GetContact int
  | CreateContact contact_create
  | UpdateContact int contact_update
  | DeleteContact int
  | ListDeals "column option"
  | CreateDeal deal_create
  | UpdateDeal int deal_update
  | DeleteDeal int
  | ListObligations "query option"
  | CreateObligation obligation_create
  | UpdateObligation int obligation_update
  | DeleteObligation int

fun column_name :: "column \<Rightarrow> string" where
  "column_name Novo = ''novo''"
| "column_name Qualificacao = ''qualificacao''"
| "column_name Proposta = ''proposta''"
| "column_name Fechamento = ''fechamento''"
| "column_name Ganho = ''ganho''"
| "column_name Perdido = ''perdido''"

definition with_body :: "string \<Rightarrow> payload \<Rightarrow> init option" where
  "with_body m b = Some \<lparr>in_method = Some m, in_body = Some b, in_headers = None\<rparr>"

definition delete_init :: "init option" where
  "delete_init = Some \<lparr>in_method = Some ''DELETE'', in_body = None, in_headers = None\<rparr>"

text \<open>The request each exported function hands to the helper.\<close>

fun crm_request :: "env \<Rightarrow> crm_call \<Rightarrow> request" where
  "crm_request e ListContacts = http_request e ''/contacts'' None None"
| "crm_request e (GetContact i) = http_request e (''/contacts/'' @ show_int i) None None"
| "crm_request e (CreateContact p) =
     http_request e ''/contacts'' (with_body ''POST'' (ContactCreate p)) None"
| "crm_request e (UpdateContact i p) =
     http_request e (''/contacts/'' @ show_int i) (with_body ''PATCH'' (ContactUpdate p)) None"
| "crm_request e (DeleteContact i) =
     http_request e (''/contacts/'' @ show_int i) delete_init None"
| "crm_request e (ListDeals col) =
     http_request e ''/deals'' None
       (case col of None \<Rightarrow> None | Some c \<Rightarrow> Some [(''column'', Some (column_name c))])"
| "crm_request e (CreateDeal p) =
     http_request e ''/deals'' (with_body ''POST'' (DealCreate p)) None"
| "crm_request e (UpdateDeal i p) =
     http_request e (''/deals/'' @ show_int i) (with_body ''PATCH'' (DealUpdate p)) None"
| "crm_request e (DeleteDeal i) =
     http_request e (''/deals/'' @ show_int i) delete_init None"
| "crm_request e (ListObligations params) = http_request e ''/obligations'' None params"
| "crm_request e (CreateObligation p) =
     http_request e ''/obligations'' (with_body ''POST'' (ObligationCreate p)) None"
| "crm_request e (UpdateObligation i p) =
     http_request e (''/obligations/'' @ show_int i)
       (with_body ''PATCH'' (ObligationUpdate p)) None"
| "crm_request e (DeleteObligation i) =
     http_request e (''/obligations/'' @ show_int i) delete_init None"

text \<open>A call run through the helper against a network.\<close>

definition crm_run :: "env \<Rightarrow> (request \<Rightarrow> 'a fetch_result) \<Rightarrow> crm_call \<Rightarrow> 'a outcome" where
  "crm_run e fetch c = http_settle (fetch (crm_request e c))"

section \<open>Arrays in a store\<close>

text \<open>
  The arrays the pages hold are JavaScript objects, reached through references. The
  computations that derive the rendered views call \<^verbatim>\<open>filter\<close>, which allocates a new
  array, and \<^verbatim>\<open>push\<close>, which changes the array it is called on; they are modelled
  on a store, in which an array is an address and \<open>cells\<close> gives its elements.
  Addresses below \<open>fresh\<close> are allocated.
\<close>

record 'a store =
  cells :: "nat \<Rightarrow> 'a list"
  fresh :: nat

definition new_array :: "'a list \<Rightarrow> 'a store \<Rightarrow> nat \<times> 'a store" where
  "new_array xs st =
     (fresh st, \<lparr>cells = (cells st)(fresh st := xs), fresh = Suc (fresh st)\<rparr>)"

definition array_push :: "nat \<Rightarrow> 'a \<Rightarrow> 'a store \<Rightarrow> 'a store" where
  "array_push a x st = st\<lparr>cells := (cells st)(a := cells st a @ [x])\<rparr>"

definition array_filter :: "('a \<Rightarrow> bool) \<Rightarrow> nat \<Rightarrow> 'a store \<Rightarrow> nat \<times> 'a store" where
  "array_filter p a st = new_array (filter p (cells st a)) st"

section \<open>The pipeline page (pages/Kanban.tsx)\<close>

record kanban =
  kb_items :: "deal list"
  kb_loading :: bool
  kb_q :: jstring
  kb_error :: "string option"

subsection \<open>filteredByCol\<close>

definition deal_hay :: "(jstring \<Rightarrow> jstring) \<Rightarrow> deal \<Rightarrow> jstring" where
  "deal_hay toLowerCase d =
     toLowerCase
       (d_title d @ [0x20] @
        or_empty (case d_tags d of None \<Rightarrow> None | Some ts \<Rightarrow> Some (join [0x20] ts)))"

text \<open>The test at the head of the loop body: \<open>True\<close> when the deal is skipped
  (\<^verbatim>\<open>continue\<close>).\<close>

definition deal_skipped :: "(jstring \<Rightarrow> jstring) \<Rightarrow> jstring \<Rightarrow> deal \<Rightarrow> bool" where
  "deal_skipped toLowerCase s d = (s \<noteq> [] \<and> \<not> str_includes (deal_hay toLowerCase d) s)"

text \<open>The object literal \<^verbatim>\<open>map\<close>: six new empty arrays, one per column.\<close>

definition new_map :: "deal store \<Rightarrow> (column \<Rightarrow> nat) \<times> deal store" where
  "new_map st =
     (let (a1, st1) = new_array [] st;
          (a2, st2) = new_array [] st1;
          (a3, st3) = new_array [] st2;
          (a4, st4) = new_array [] st3;
          (a5, st5) = new_array [] st4;
          (a6, st6) = new_array [] st5
      in ((\<lambda>c. case c of Novo \<Rightarrow> a1 | Qualificacao \<Rightarrow> a2 | Proposta \<Rightarrow> a3
                 | Fechamento \<Rightarrow> a4 | Ganho \<Rightarrow> a5 | Perdido \<Rightarrow> a6), st6))"

text \<open>
  \<^verbatim>\<open>for (const d of items)\<close>: the array iterator reads the array by index, as it is
  when each step runs, and stops when the index reaches its length. A loop that never
  stops has the value \<open>None\<close>.
\<close>

partial_function (option) filteredByCol_loop ::
  "(jstring \<Rightarrow> jstring) \<Rightarrow> jstring \<Rightarrow> nat \<Rightarrow> (column \<Rightarrow> nat) \<Rightarrow> nat \<Rightarrow> deal store
     \<Rightarrow> deal store option" where
  "filteredByCol_loop toLowerCase s items m i st =
     (if i < length (cells st items) then
        (let d = cells st items ! i
         in if deal_skipped toLowerCase s d
            then filteredByCol_loop toLowerCase s items m (Suc i) st
            else filteredByCol_loop toLowerCase s items m (Suc i)
                   (array_push (m (d_column d)) d st))
      else Some st)"

declare filteredByCol_loop.simps [code]

definition filteredByCol ::
  "(jstring \<Rightarrow> jstring) \<Rightarrow> jstring \<Rightarrow> nat \<Rightarrow> deal store
     \<Rightarrow> ((column \<Rightarrow> nat) \<times> deal store) option" where
  "filteredByCol toLowerCase q items st =
     (let s = toLowerCase (trim q);
          (m, st1) = new_map st
      in case filteredByCol_loop toLowerCase s items m 0 st1 of
           None \<Rightarrow> None
         | Some st2 \<Rightarrow> Some (m, st2))"

subsection \<open>The handlers\<close>

text \<open>
  An \<^verbatim>\<open>async\<close> handler with one \<^verbatim>\<open>await\<close> is modelled in two parts. Its
  \<open>begin\<close> runs up to the \<^verbatim>\<open>await\<close>: it gives the state of the page there and, when
  a call was issued, the call with the variables the rest of the handler closes over.
  Its \<open>resume\<close> runs from the settled promise on, against the state the page has by
  then: \<^verbatim>\<open>setItems(f)\<close> with a function applies \<open>f\<close> to that state,
  \<^verbatim>\<open>setItems(prev)\<close> overwrites it. The handler itself is one after the other, with
  nothing in between. The handler's \<open>items\<close> is the state of the page when it starts.
\<close>

definition kanban_refresh_begin :: "kanban \<Rightarrow> kanban \<times> crm_call" where
  "kanban_refresh_begin st = (st\<lparr>kb_loading := True\<rparr>, ListDeals None)"

definition kanban_refresh_resume :: "kanban \<Rightarrow> deal list outcome \<Rightarrow> kanban" where
  "kanban_refresh_resume st out =
     (case out of
        Resolved ds \<Rightarrow> st\<lparr>kb_items := ds\<rparr>
      | Rejected m \<Rightarrow>
          st\<lparr>kb_error := Some (if m \<noteq> [] then m else ''Falha ao carregar pipeline'')\<rparr>)
     \<lparr>kb_loading := False\<rparr>"

definition kanban_refresh :: "kanban \<Rightarrow> deal list outcome \<Rightarrow> kanban" where
  "kanban_refresh st out = kanban_refresh_resume (fst (kanban_refresh_begin st)) out"

definition move_begin ::
  "kanban \<Rightarrow> deal \<Rightarrow> column \<Rightarrow> kanban \<times> (crm_call \<times> deal list) option" where
  "move_begin st d to =
     (if d_column d = to then (st, None)
      else
        (let prev = kb_items st
         in (st\<lparr>kb_items :=
                  map (\<lambda>x. if d_id x = d_id d then x\<lparr>d_column := to\<rparr> else x) (kb_items st)\<rparr>,
             Some (UpdateDeal (d_id d) (empty_deal_update\<lparr>du_column := Some to\<rparr>), prev))))"

definition move_resume :: "deal list \<Rightarrow> kanban \<Rightarrow> 'a outcome \<Rightarrow> kanban" where
  "move_resume prev st out =
     (case out of Resolved _ \<Rightarrow> st | Rejected _ \<Rightarrow> st\<lparr>kb_items := prev\<rparr>)"

definition move :: "kanban \<Rightarrow> deal \<Rightarrow> column \<Rightarrow> 'a outcome \<Rightarrow> kanban" where
  "move st d to out =
     (case move_begin st d to of
        (st1, None) \<Rightarrow> st1
      | (st1, Some (c, prev)) \<Rightarrow> move_resume prev st1 out)"

text \<open>
  \<open>quickAdd\<close> reads two prompts (\<open>None\<close> is a cancelled prompt) and converts the
  second with \<^verbatim>\<open>Number\<close>, a parameter here (\<open>None\<close> is NaN). It has no
  \<^verbatim>\<open>try\<close>: a rejected call leaves it as a rejection, \<open>Inl\<close> its message.
\<close>

definition kanban_quickAdd_begin ::
  "(string \<Rightarrow> int option) \<Rightarrow> kanban \<Rightarrow> jstring option \<Rightarrow> string option \<Rightarrow> kanban \<times> crm_call option" where
  "kanban_quickAdd_begin Number st title valueStr =
     (if or_empty title = [] then (st, None)
      else
        (let vs = (if or_empty valueStr = [] then ''0'' else or_empty valueStr);
             v = (case Number vs of None \<Rightarrow> 0 | Some n \<Rightarrow> n)
         in (st,
             Some (CreateDeal
               \<lparr>dc_contact_id = 0, dc_title = or_empty title, dc_value = v, dc_column = Novo,
                dc_priority = ''normal'', dc_due_date = None, dc_tags = Some []\<rparr>))))"

definition kanban_quickAdd_resume :: "kanban \<Rightarrow> deal outcome \<Rightarrow> string + kanban" where
  "kanban_quickAdd_resume st out =
     (case out of
        Resolved novo \<Rightarrow> Inr (st\<lparr>kb_items := novo # kb_items st\<rparr>)
      | Rejected m \<Rightarrow> Inl m)"

definition kanban_quickAdd ::
  "(string \<Rightarrow> int option) \<Rightarrow> kanban \<Rightarrow> jstring option \<Rightarrow> string option \<Rightarrow> deal outcome \<Rightarrow> string + kanban" where
  "kanban_quickAdd Number st title valueStr out =
     (case kanban_quickAdd_begin Number st title valueStr of
        (st1, None) \<Rightarrow> Inr st1
      | (st1, Some c) \<Rightarrow> kanban_quickAdd_resume st1 out)"

text \<open>\<open>remove\<close> asks first (\<^verbatim>\<open>confirm\<close>, whose answer is the first argument).\<close>

definition kanban_remove_begin ::
  "bool \<Rightarrow> kanban \<Rightarrow> int \<Rightarrow> kanban \<times> (crm_call \<times> deal list) option" where
  "kanban_remove_begin confirmed st i =
     (if \<not> confirmed then (st, None)
      else
        (let prev = kb_items st
         in (st\<lparr>kb_items := filter (\<lambda>x. d_id x \<noteq> i) (kb_items st)\<rparr>,
             Some (DeleteDeal i, prev))))"

definition kanban_remove_resume :: "deal list \<Rightarrow> kanban \<Rightarrow> 'a outcome \<Rightarrow> kanban" where
  "kanban_remove_resume prev st out =
     (case out of Resolved _ \<Rightarrow> st | Rejected _ \<Rightarrow> st\<lparr>kb_items := prev\<rparr>)"

definition kanban_remove :: "bool \<Rightarrow> kanban \<Rightarrow> int \<Rightarrow> 'a outcome \<Rightarrow> kanban" where
  "kanban_remove confirmed st i out =
     (case kanban_remove_begin confirmed st i of
        (st1, None) \<Rightarrow> st1
      | (st1, Some (c, prev)) \<Rightarrow> kanban_remove_resume prev st1 out)"

section \<open>The obligations page (pages/Calendar.tsx)\<close>

record calendar =
  cal_start :: string
  cal_end :: string
  cal_rows :: "obligation list"
  cal_loading :: bool
  cal_q :: jstring
  cal_error :: "string option"

subsection \<open>filtered, the three buckets and their order\<close>

definition obligation_hay :: "(jstring \<Rightarrow> jstring) \<Rightarrow> obligation \<Rightarrow> jstring" where
  "obligation_hay toLowerCase ob =
     toLowerCase (o_title ob @ [0x20] @ or_empty (o_description ob))"

text \<open>The callback of \<^verbatim>\<open>rows.filter\<close>.\<close>

definition obligation_kept :: "(jstring \<Rightarrow> jstring) \<Rightarrow> jstring \<Rightarrow> obligation \<Rightarrow> bool" where
  "obligation_kept toLowerCase s ob =
     (if s = [] then True else str_includes (obligation_hay toLowerCase ob) s)"

definition calendar_filtered ::
  "(jstring \<Rightarrow> jstring) \<Rightarrow> jstring \<Rightarrow> nat \<Rightarrow> obligation store \<Rightarrow> nat \<times> obligation store" where
  "calendar_filtered toLowerCase q rows st =
     array_filter (obligation_kept toLowerCase (toLowerCase (trim q))) rows st"

text \<open>
  \<^verbatim>\<open>new Date(s)\<close> is a parameter \<open>Date\<close>: the time value in milliseconds, \<open>None\<close>
  for an invalid date (NaN), with which every comparison is false.
\<close>

definition date_lt :: "int option \<Rightarrow> int \<Rightarrow> bool" where
  "date_lt a now = (case a of None \<Rightarrow> False | Some x \<Rightarrow> x < now)"

definition date_ge :: "int option \<Rightarrow> int \<Rightarrow> bool" where
  "date_ge a now = (case a of None \<Rightarrow> False | Some x \<Rightarrow> x \<ge> now)"

text \<open>
  \<^verbatim>\<open>new Date()\<close> reads the clock each time it is evaluated: \<open>clock k\<close> is the reading
  number \<open>k\<close> of a rendering, and nothing is assumed of the readings. The callback of
  \<open>overdue\<close> is \<^verbatim>\<open>o.status === "open" && new Date(o.due_date) < new Date()\<close>: it reads
  the clock once for every open obligation and not at all for another one. A filter gives
  its list and the number of the next reading; \<open>upcoming\<close> runs after \<open>overdue\<close> and
  goes on from there.
\<close>

fun overdue_filter ::
  "(string \<Rightarrow> int option) \<Rightarrow> (nat \<Rightarrow> int) \<Rightarrow> nat \<Rightarrow> obligation list \<Rightarrow> obligation list \<times> nat" where
  "overdue_filter Date clock k [] = ([], k)"
| "overdue_filter Date clock k (ob # obs) =
     (if o_status ob = Open then
        (case overdue_filter Date clock (Suc k) obs of
           (rest, k') \<Rightarrow>
             (if date_lt (Date (o_due_date ob)) (clock k) then ob # rest else rest, k'))
      else overdue_filter Date clock k obs)"

fun upcoming_filter ::
  "(string \<Rightarrow> int option) \<Rightarrow> (nat \<Rightarrow> int) \<Rightarrow> nat \<Rightarrow> obligation list \<Rightarrow> obligation list \<times> nat" where
  "upcoming_filter Date clock k [] = ([], k)"
| "upcoming_filter Date clock k (ob # obs) =
     (if o_status ob = Open then
        (case upcoming_filter Date clock (Suc k) obs of
           (rest, k') \<Rightarrow>
             (if date_ge (Date (o_due_date ob)) (clock k) then ob # rest else rest, k'))
      else upcoming_filter Date clock k obs)"

definition overdue ::
  "(string \<Rightarrow> int option) \<Rightarrow> (nat \<Rightarrow> int) \<Rightarrow> obligation list \<Rightarrow> obligation list" where
  "overdue Date clock filtered = fst (overdue_filter Date clock 0 filtered)"

definition upcoming ::
  "(string \<Rightarrow> int option) \<Rightarrow> (nat \<Rightarrow> int) \<Rightarrow> obligation list \<Rightarrow> obligation list" where
  "upcoming Date clock filtered =
     fst (upcoming_filter Date clock (snd (overdue_filter Date clock 0 filtered)) filtered)"

definition done_bucket :: "obligation list \<Rightarrow> obligation list" where
  "done_bucket filtered = filter (\<lambda>ob. o_status ob = Done) filtered"

text \<open>
  \<^verbatim>\<open>Array.prototype.sort\<close> with a comparison function. The function is consistent
  for the values of an array when, for all \<open>a\<close>, \<open>b\<close> and \<open>c\<close> among them, its result is
  never NaN (\<open>None\<close>), \<open>a\<close> equals \<open>a\<close>, equality is symmetric and transitive, and
  less-than and greater-than are transitive, where \<open>a\<close> is less than, equal to or greater
  than \<open>b\<close> as the result for \<open>a\<close> and \<open>b\<close> is negative, zero or positive.
\<close>

definition cf_lt :: "('a \<Rightarrow> 'a \<Rightarrow> int option) \<Rightarrow> 'a \<Rightarrow> 'a \<Rightarrow> bool" where
  "cf_lt comparefn a b = (case comparefn a b of None \<Rightarrow> False | Some v \<Rightarrow> v < 0)"

definition cf_eq :: "('a \<Rightarrow> 'a \<Rightarrow> int option) \<Rightarrow> 'a \<Rightarrow> 'a \<Rightarrow> bool" where
  "cf_eq comparefn a b = (case comparefn a b of None \<Rightarrow> False | Some v \<Rightarrow> v = 0)"

definition cf_gt :: "('a \<Rightarrow> 'a \<Rightarrow> int option) \<Rightarrow> 'a \<Rightarrow> 'a \<Rightarrow> bool" where
  "cf_gt comparefn a b = (case comparefn a b of None \<Rightarrow> False | Some v \<Rightarrow> v > 0)"

definition consistent :: "('a \<Rightarrow> 'a \<Rightarrow> int option) \<Rightarrow> 'a list \<Rightarrow> bool" where
  "consistent comparefn xs =
     list_all (\<lambda>a. list_all (\<lambda>b. list_all (\<lambda>c.
         comparefn a b \<noteq> None
       \<and> cf_eq comparefn a a
       \<and> (cf_eq comparefn a b \<longrightarrow> cf_eq comparefn b a)
       \<and> (cf_eq comparefn a b \<and> cf_eq comparefn b c \<longrightarrow> cf_eq comparefn a c)
       \<and> (cf_lt comparefn a b \<and> cf_lt comparefn b c \<longrightarrow> cf_lt comparefn a c)
       \<and> (cf_gt comparefn a b \<and> cf_gt comparefn b c \<longrightarrow> cf_gt comparefn a c)) xs) xs) xs"

text \<open>
  With a consistent comparison function the sort is determined: it is stable and
  ascending, and an insertion sort computes it. Otherwise the order is left to the
  implementation: \<open>engine\<close>, a parameter of which nothing is assumed, gives the array the
  engine leaves then. The function sorts its array in place; the three buckets are
  arrays \<^verbatim>\<open>filter\<close> has just made, so they are given as values.
\<close>

fun insert_sorted :: "('a \<Rightarrow> 'a \<Rightarrow> int) \<Rightarrow> 'a \<Rightarrow> 'a list \<Rightarrow> 'a list" where
  "insert_sorted cmp x [] = [x]"
| "insert_sorted cmp x (y # ys) =
     (if cmp x y \<le> 0 then x # y # ys else y # insert_sorted cmp x ys)"

definition stable_sort :: "('a \<Rightarrow> 'a \<Rightarrow> int option) \<Rightarrow> 'a list \<Rightarrow> 'a list" where
  "stable_sort comparefn xs =
     foldr (insert_sorted (\<lambda>a b. case comparefn a b of None \<Rightarrow> 0 | Some v \<Rightarrow> v)) xs []"

definition array_sort ::
  "(('a \<Rightarrow> 'a \<Rightarrow> int option) \<Rightarrow> 'a list \<Rightarrow> 'a list) \<Rightarrow> ('a \<Rightarrow> 'a \<Rightarrow> int option) \<Rightarrow> 'a list \<Rightarrow> 'a list" where
  "array_sort engine comparefn xs =
     (if consistent comparefn xs then stable_sort comparefn xs else engine comparefn xs)"

text \<open>The comparison function of \<open>Section\<close>: the difference of the two time values.\<close>

definition by_due :: "(string \<Rightarrow> int option) \<Rightarrow> obligation \<Rightarrow> obligation \<Rightarrow> int option" where
  "by_due Date a b =
     (case Date (o_due_date a) of
        None \<Rightarrow> None
      | Some x \<Rightarrow> (case Date (o_due_date b) of None \<Rightarrow> None | Some y \<Rightarrow> Some (x - y)))"

text \<open>The rows a \<open>Section\<close> lists, in their order.\<close>

definition Section ::
  "(string \<Rightarrow> int option)
     \<Rightarrow> ((obligation \<Rightarrow> obligation \<Rightarrow> int option) \<Rightarrow> obligation list \<Rightarrow> obligation list)
     \<Rightarrow> obligation list \<Rightarrow> obligation list" where
  "Section Date engine data =
     (if data = [] then [] else array_sort engine (by_due Date) data)"

text \<open>One engine: it leaves an array whose comparison function is not consistent in the
  order an insertion sort gives when NaN counts as 0.\<close>

definition engine_insertion :: "('a \<Rightarrow> 'a \<Rightarrow> int option) \<Rightarrow> 'a list \<Rightarrow> 'a list" where
  "engine_insertion comparefn xs = stable_sort comparefn xs"

subsection \<open>The handlers\<close>

definition calendar_refresh_begin :: "calendar \<Rightarrow> calendar \<times> crm_call" where
  "calendar_refresh_begin st =
     (st\<lparr>cal_loading := True\<rparr>,
      ListObligations (Some [(''start'', Some (cal_start st)), (''end'', Some (cal_end st))]))"

definition calendar_refresh_resume :: "calendar \<Rightarrow> obligation list outcome \<Rightarrow> calendar" where
  "calendar_refresh_resume st out =
     (case out of
        Resolved data \<Rightarrow> st\<lparr>cal_rows := data\<rparr>
      | Rejected m \<Rightarrow>
          st\<lparr>cal_error :=
               Some (if m \<noteq> [] then m
                     else ''Falha ao carregar obriga'' @ [char_of (231 :: nat), char_of (245 :: nat)] @ ''es'')\<rparr>)
     \<lparr>cal_loading := False\<rparr>"

definition calendar_refresh :: "calendar \<Rightarrow> obligation list outcome \<Rightarrow> calendar" where
  "calendar_refresh st out = calendar_refresh_resume (fst (calendar_refresh_begin st)) out"

definition toggleDone_begin ::
  "calendar \<Rightarrow> obligation \<Rightarrow> calendar \<times> (crm_call \<times> obligation list) option" where
  "toggleDone_begin st ob =
     (let prev = cal_rows st;
          nextStatus = (if o_status ob = Done then Open else Done)
      in (st\<lparr>cal_rows :=
               map (\<lambda>x. if o_id x = o_id ob then x\<lparr>o_status := nextStatus\<rparr> else x) (cal_rows st)\<rparr>,
          Some (UpdateObligation (o_id ob) (empty_obligation_update\<lparr>ou_status := Some nextStatus\<rparr>),
                prev)))"

definition toggleDone_resume :: "obligation list \<Rightarrow> calendar \<Rightarrow> 'a outcome \<Rightarrow> calendar" where
  "toggleDone_resume prev st out =
     (case out of Resolved _ \<Rightarrow> st | Rejected _ \<Rightarrow> st\<lparr>cal_rows := prev\<rparr>)"

definition toggleDone :: "calendar \<Rightarrow> obligation \<Rightarrow> 'a outcome \<Rightarrow> calendar" where
  "toggleDone st ob out =
     (case toggleDone_begin st ob of
        (st1, None) \<Rightarrow> st1
      | (st1, Some (c, prev)) \<Rightarrow> toggleDone_resume prev st1 out)"

text \<open>\<open>today\<close> is the date of the rendering, \<^verbatim>\<open>toISODate(new Date())\<close>.\<close>

definition calendar_quickAdd_begin ::
  "string \<Rightarrow> calendar \<Rightarrow> jstring option \<Rightarrow> string option \<Rightarrow> calendar \<times> crm_call option" where
  "calendar_quickAdd_begin today st title whenStr =
     (if or_empty title = [] then (st, None)
      else
        (let when = (if or_empty whenStr = [] then today @ '' 09:00'' else or_empty whenStr);
             iso = replace_first CHR '' '' CHR ''T'' when @ '':00''
         in (st,
             Some (CreateObligation
               \<lparr>oc_title = or_empty title, oc_description = None, oc_due_date = iso,
                oc_status = Open, oc_contact_id = None\<rparr>))))"

definition calendar_quickAdd_resume :: "calendar \<Rightarrow> obligation outcome \<Rightarrow> string + calendar" where
  "calendar_quickAdd_resume st out =
     (case out of
        Resolved created \<Rightarrow> Inr (st\<lparr>cal_rows := created # cal_rows st\<rparr>)
      | Rejected m \<Rightarrow> Inl m)"

definition calendar_quickAdd ::
  "string \<Rightarrow> calendar \<Rightarrow> jstring option \<Rightarrow> string option \<Rightarrow> obligation outcome \<Rightarrow> string + calendar" where
  "calendar_quickAdd today st title whenStr out =
     (case calendar_quickAdd_begin today st title whenStr of
        (st1, None) \<Rightarrow> Inr st1
      | (st1, Some c) \<Rightarrow> calendar_quickAdd_resume st1 out)"

definition calendar_remove_begin ::
  "bool \<Rightarrow> calendar \<Rightarrow> int \<Rightarrow> calendar \<times> (crm_call \<times> obligation list) option" where
  "calendar_remove_begin confirmed st i =
     (if \<not> confirmed then (st, None)
      else
        (let prev = cal_rows st
         in (st\<lparr>cal_rows := filter (\<lambda>x. o_id x \<noteq> i) (cal_rows st)\<rparr>,
             Some (DeleteObligation i, prev))))"

definition calendar_remove_resume :: "obligation list \<Rightarrow> calendar \<Rightarrow> 'a outcome \<Rightarrow> calendar" where
  "calendar_remove_resume prev st out =
     (case out of Resolved _ \<Rightarrow> st | Rejected _ \<Rightarrow> st\<lparr>cal_rows := prev\<rparr>)"

definition calendar_remove :: "bool \<Rightarrow> calendar \<Rightarrow> int \<Rightarrow> 'a outcome \<Rightarrow> calendar" where
  "calendar_remove confirmed st i out =
     (case calendar_remove_begin confirmed st i of
        (st1, None) \<Rightarrow> st1
      | (st1, Some (c, prev)) \<Rightarrow> calendar_remove_resume prev st1 out)"

section \<open>The contacts page (pages/Contacts.tsx)\<close>

text \<open>A select whose value is the empty string (\<open>Todos\<close>) is \<open>None\<close>.\<close>

record contacts =
  con_rows :: "contact list"
  con_loading :: bool
  con_q :: jstring
  con_stage :: "stage option"
  con_heat :: "heat option"
  con_awaiting :: "await_status option"
  con_onlyReal :: bool
  con_error :: "string option"

subsection \<open>filtered\<close>

definition contact_hay :: "(jstring \<Rightarrow> jstring) \<Rightarrow> contact \<Rightarrow> jstring" where
  "contact_hay toLowerCase c =
     toLowerCase (c_name c @ [0x20] @ or_empty (c_email c) @ [0x20] @ or_empty (c_phone c))"

text \<open>The callback of \<^verbatim>\<open>rows.filter\<close>.\<close>

definition contact_kept ::
  "(jstring \<Rightarrow> jstring) \<Rightarrow> jstring \<Rightarrow> stage option \<Rightarrow> heat option \<Rightarrow> await_status option \<Rightarrow> bool
     \<Rightarrow> contact \<Rightarrow> bool" where
  "contact_kept toLowerCase s stage heat awaiting onlyReal c =
     (if s \<noteq> [] \<and> \<not> str_includes (contact_hay toLowerCase c) s then False
      else if stage \<noteq> None \<and> Some (c_stage c) \<noteq> stage then False
      else if heat \<noteq> None \<and> Some (c_heat c) \<noteq> heat then False
      else if awaiting \<noteq> None \<and> Some (c_await_status c) \<noteq> awaiting then False
      else if onlyReal \<and> \<not> c_is_real c then False
      else True)"

definition contacts_filtered ::
  "(jstring \<Rightarrow> jstring) \<Rightarrow> jstring \<Rightarrow> stage option \<Rightarrow> heat option \<Rightarrow> await_status option \<Rightarrow> bool
     \<Rightarrow> nat \<Rightarrow> contact store \<Rightarrow> nat \<times> contact store" where
  "contacts_filtered toLowerCase q stage heat awaiting onlyReal rows st =
     array_filter
       (contact_kept toLowerCase (toLowerCase (trim q)) stage heat awaiting onlyReal) rows st"

subsection \<open>The handlers\<close>

definition contacts_refresh_begin :: "contacts \<Rightarrow> contacts \<times> crm_call" where
  "contacts_refresh_begin st = (st\<lparr>con_loading := True\<rparr>, ListContacts)"

definition contacts_refresh_resume :: "contacts \<Rightarrow> contact list outcome \<Rightarrow> contacts" where
  "contacts_refresh_resume st out =
     (case out of
        Resolved data \<Rightarrow> st\<lparr>con_rows := data\<rparr>
      | Rejected m \<Rightarrow>
          st\<lparr>con_error := Some (if m \<noteq> [] then m else ''Falha ao carregar contatos'')\<rparr>)
     \<lparr>con_loading := False\<rparr>"

definition contacts_refresh :: "contacts \<Rightarrow> contact list outcome \<Rightarrow> contacts" where
  "contacts_refresh st out = contacts_refresh_resume (fst (contacts_refresh_begin st)) out"

definition toggleReal_begin ::
  "contacts \<Rightarrow> int \<Rightarrow> bool \<Rightarrow> contacts \<times> (crm_call \<times> contact list) option" where
  "toggleReal_begin st i current =
     (let previous = con_rows st
      in (st\<lparr>con_rows :=
               map (\<lambda>r. if c_id r = i then r\<lparr>c_is_real := \<not> current\<rparr> else r) (con_rows st)\<rparr>,
          Some (UpdateContact i (empty_contact_update\<lparr>cu_is_real := Some (\<not> current)\<rparr>), previous)))"

definition toggleReal_resume :: "contact list \<Rightarrow> contacts \<Rightarrow> 'a outcome \<Rightarrow> contacts" where
  "toggleReal_resume previous st out =
     (case out of Resolved _ \<Rightarrow> st | Rejected _ \<Rightarrow> st\<lparr>con_rows := previous\<rparr>)"

definition toggleReal :: "contacts \<Rightarrow> int \<Rightarrow> bool \<Rightarrow> 'a outcome \<Rightarrow> contacts" where
  "toggleReal st i current out =
     (case toggleReal_begin st i current of
        (st1, None) \<Rightarrow> st1
      | (st1, Some (c, previous)) \<Rightarrow> toggleReal_resume previous st1 out)"

definition contacts_quickAdd_begin :: "contacts \<Rightarrow> jstring option \<Rightarrow> contacts \<times> crm_call option" where
  "contacts_quickAdd_begin st name =
     (if or_empty name = [] then (st, None)
      else
        (st,
         Some (CreateContact
           \<lparr>cc_name = or_empty name, cc_phone = None, cc_email = None, cc_stage = Lead,
            cc_heat = Warm, cc_await_status = Await_none, cc_is_real = True, cc_notes = None\<rparr>)))"

definition contacts_quickAdd_resume :: "contacts \<Rightarrow> contact outcome \<Rightarrow> string + contacts" where
  "contacts_quickAdd_resume st out =
     (case out of
        Resolved newC \<Rightarrow> Inr (st\<lparr>con_rows := newC # con_rows st\<rparr>)
      | Rejected m \<Rightarrow> Inl m)"

definition contacts_quickAdd :: "contacts \<Rightarrow> jstring option \<Rightarrow> contact outcome \<Rightarrow> string + contacts" where
  "contacts_quickAdd st name out =
     (case contacts_quickAdd_begin st name of
        (st1, None) \<Rightarrow> Inr st1
      | (st1, Some c) \<Rightarrow> contacts_quickAdd_resume st1 out)"

definition contacts_remove_begin ::
  "bool \<Rightarrow> contacts \<Rightarrow> int \<Rightarrow> contacts \<times> (crm_call \<times> contact list) option" where
  "contacts_remove_begin confirmed st i =
     (if \<not> confirmed then (st, None)
      else
        (let prev = con_rows st
         in (st\<lparr>con_rows := filter (\<lambda>x. c_id x \<noteq> i) (con_rows st)\<rparr>,
             Some (DeleteContact i, prev))))"

definition contacts_remove_resume :: "contact list \<Rightarrow> contacts \<Rightarrow> 'a outcome \<Rightarrow> contacts" where
  "contacts_remove_resume prev st out =
     (case out of Resolved _ \<Rightarrow> st | Rejected _ \<Rightarrow> st\<lparr>con_rows := prev\<rparr>)"

definition contacts_remove :: "bool \<Rightarrow> contacts \<Rightarrow> int \<Rightarrow> 'a outcome \<Rightarrow> contacts" where
  "contacts_remove confirmed st i out =
     (case contacts_remove_begin confirmed st i of
        (st1, None) \<Rightarrow> st1
      | (st1, Some (c, prev)) \<Rightarrow> contacts_remove_resume prev st1 out)"

section \<open>Notions of the specification\<close>

text \<open>
  The words of the specification that the theorems compare the code with. A needle is a
  case-insensitive substring of a text when some contiguous run of the text equals it up
  to the case of the letters, that is, has the same lower-case form.
\<close>

definition spec_ci_substring :: "(jstring \<Rightarrow> jstring) \<Rightarrow> jstring \<Rightarrow> jstring \<Rightarrow> bool" where
  "spec_ci_substring toLowerCase needle hay =
     (\<exists>pre w suf. hay = pre @ w @ suf \<and> toLowerCase w = toLowerCase needle)"

text \<open>A query matches a text when the trimmed query is such a substring of it.\<close>

definition spec_matches :: "(jstring \<Rightarrow> jstring) \<Rightarrow> jstring \<Rightarrow> jstring \<Rightarrow> bool" where
  "spec_matches toLowerCase q text = spec_ci_substring toLowerCase (trim q) text"

text \<open>The lower-case form of the trimmed query is a contiguous run of the lower-case form
  of the whole text.\<close>

definition spec_lowered_match :: "(jstring \<Rightarrow> jstring) \<Rightarrow> jstring \<Rightarrow> jstring \<Rightarrow> bool" where
  "spec_lowered_match toLowerCase q text =
     (\<exists>pre suf. toLowerCase text = pre @ toLowerCase (trim q) @ suf)"

text \<open>The searchable text of each entity: name, e-mail and phone of a contact; title and
  tags of a deal; title and description of an obligation.\<close>

definition spec_contact_text :: "contact \<Rightarrow> jstring" where
  "spec_contact_text c =
     c_name c @ [0x20] @ (case c_email c of None \<Rightarrow> [] | Some m \<Rightarrow> m) @ [0x20] @
     (case c_phone c of None \<Rightarrow> [] | Some p \<Rightarrow> p)"

definition spec_deal_text :: "deal \<Rightarrow> jstring" where
  "spec_deal_text d =
     d_title d @ [0x20] @ (case d_tags d of None \<Rightarrow> [] | Some ts \<Rightarrow> join [0x20] ts)"

definition spec_obligation_text :: "obligation \<Rightarrow> jstring" where
  "spec_obligation_text ob =
     o_title ob @ [0x20] @ (case o_description ob of None \<Rightarrow> [] | Some t \<Rightarrow> t)"

text \<open>A list of obligations is in ascending order of due time: every due date is a valid
  date, and none is later than one that follows it.\<close>

definition spec_ascending :: "(string \<Rightarrow> int option) \<Rightarrow> obligation list \<Rightarrow> bool" where
  "spec_ascending Date xs =
     sorted_wrt (\<lambda>a b. case Date (o_due_date a) of None \<Rightarrow> False
        | Some x \<Rightarrow> (case Date (o_due_date b) of None \<Rightarrow> False | Some y \<Rightarrow> x \<le> y)) xs"

text \<open>The number a string of decimal digits denotes.\<close>

definition spec_decimal_value :: "string \<Rightarrow> nat" where
  "spec_decimal_value s = foldl (\<lambda>a c. 10 * a + (of_char c - 48)) 0 s"

section \<open>Sample data\<close>

text \<open>Entities and pages for the scenarios: the fields a scenario does not name are
  fixed arbitrarily.\<close>

definition sample_deal :: "int \<Rightarrow> column \<Rightarrow> deal" where
  "sample_deal i col =
     \<lparr>d_id = i, d_contact_id = 0, d_title = js ''Deal'', d_value = 0, d_column = col,
      d_priority = ''normal'', d_due_date = None, d_tags = None,
      d_created_at = ''2024-01-01T00:00:00''\<rparr>"

definition sample_obligation :: "int \<Rightarrow> string \<Rightarrow> status \<Rightarrow> obligation" where
  "sample_obligation i due s =
     \<lparr>o_id = i, o_owner_user_id = 1, o_title = js ''Task'', o_description = None,
      o_due_date = due, o_status = s, o_contact_id = None,
      o_created_at = ''2024-01-01T00:00:00''\<rparr>"

definition sample_contact :: "int \<Rightarrow> string \<Rightarrow> bool \<Rightarrow> contact" where
  "sample_contact i n real =
     \<lparr>c_id = i, c_owner_user_id = 1, c_name = js n, c_phone = None, c_email = None,
      c_stage = Lead, c_heat = Warm, c_await_status = Await_none, c_is_real = real,
      c_notes = None, c_created_at = ''2024-01-01T00:00:00'',
      c_updated_at = ''2024-01-01T00:00:00''\<rparr>"

definition sample_kanban :: "deal list \<Rightarrow> kanban" where
  "sample_kanban ds = \<lparr>kb_items = ds, kb_loading = False, kb_q = [], kb_error = None\<rparr>"

definition sample_calendar :: "obligation list \<Rightarrow> calendar" where
  "sample_calendar os =
     \<lparr>cal_start = ''2024-01-01'', cal_end = ''2024-01-08'', cal_rows = os,
      cal_loading = False, cal_q = [], cal_error = None\<rparr>"

definition sample_contacts :: "contact list \<Rightarrow> contacts" where
  "sample_contacts cs =
     \<lparr>con_rows = cs, con_loading = False, con_q = [], con_stage = None, con_heat = None,
      con_awaiting = None, con_onlyReal = False, con_error = None\<rparr>"

section \<open>Rollback of the optimistic handlers\<close>

text \<open>
  C1. The four optimistic mutations (the move of a deal, the toggle of an obligation's
  status, the toggle of a contact's \<open>is_real\<close>, and the removal of an entity on each
  page). For each: the snapshot captured before the optimistic change is the collection
  of that moment; when the call rejects, the rest of the handler sets the collection to
  that snapshot, whatever the page holds by then; so a handler whose call rejects leaves
  the collection equal, as a list of records, to the one it started from.
\<close>

theorem rollback_restores_snapshot:
  "(case snd (move_begin kst d to) of None \<Rightarrow> True | Some (c, prev) \<Rightarrow> prev = kb_items kst)
   \<and> kb_items (move_resume dprev kst' (Rejected e)) = dprev
   \<and> kb_items (move kst d to (Rejected e)) = kb_items kst
   \<and> (case snd (toggleDone_begin cst ob) of None \<Rightarrow> True | Some (c, prev) \<Rightarrow> prev = cal_rows cst)
   \<and> cal_rows (toggleDone_resume oprev cst' (Rejected e)) = oprev
   \<and> cal_rows (toggleDone cst ob (Rejected e)) = cal_rows cst
   \<and> (case snd (toggleReal_begin nst i current) of None \<Rightarrow> True
       | Some (c, prev) \<Rightarrow> prev = con_rows nst)
   \<and> con_rows (toggleReal_resume cprev nst' (Rejected e)) = cprev
   \<and> con_rows (toggleReal nst i current (Rejected e)) = con_rows nst
   \<and> (case snd (kanban_remove_begin confirmed kst i) of None \<Rightarrow> True
       | Some (c, prev) \<Rightarrow> prev = kb_items kst)
   \<and> kb_items (kanban_remove_resume dprev kst' (Rejected e)) = dprev
   \<and> kb_items (kanban_remove confirmed kst i (Rejected e)) = kb_items kst
   \<and> (case snd (calendar_remove_begin confirmed cst i) of None \<Rightarrow> True
       | Some (c, prev) \<Rightarrow> prev = cal_rows cst)
   \<and> cal_rows (calendar_remove_resume oprev cst' (Rejected e)) = oprev
   \<and> cal_rows (calendar_remove confirmed cst i (Rejected e)) = cal_rows cst
   \<and> (case snd (contacts_remove_begin confirmed nst i) of None \<Rightarrow> True
       | Some (c, prev) \<Rightarrow> prev = con_rows nst)
   \<and> con_rows (contacts_remove_resume cprev nst' (Rejected e)) = cprev
   \<and> con_rows (contacts_remove confirmed nst i (Rejected e)) = con_rows nst"
  by (simp add: move_def move_begin_def move_resume_def toggleDone_def toggleDone_begin_def
      toggleDone_resume_def toggleReal_def toggleReal_begin_def toggleReal_resume_def
      kanban_remove_def kanban_remove_begin_def kanban_remove_resume_def
      calendar_remove_def calendar_remove_begin_def calendar_remove_resume_def
      contacts_remove_def contacts_remove_begin_def contacts_remove_resume_def Let_def)

section \<open>The filtered views\<close>

lemma startsWith_iff: "startsWith hay s \<longleftrightarrow> (\<exists>suf. hay = s @ suf)"
  by (induction hay s rule: startsWith.induct) auto

lemma str_includes_iff: "str_includes hay s \<longleftrightarrow> (\<exists>pre suf. hay = pre @ s @ suf)"
proof (induction hay)
  case Nil
  then show ?case by auto
next
  case (Cons h hay)
  show ?case
  proof
    assume "str_includes (h # hay) s"
    then consider "startsWith (h # hay) s" | "str_includes hay s" by auto
    then show "\<exists>pre suf. h # hay = pre @ s @ suf"
    proof cases
      case 1
      then obtain suf where "h # hay = s @ suf" by (auto simp: startsWith_iff)
      then have "h # hay = [] @ s @ suf" by simp
      then show ?thesis by blast
    next
      case 2
      then obtain pre suf where "hay = pre @ s @ suf" using Cons.IH by blast
      then have "h # hay = (h # pre) @ s @ suf" by simp
      then show ?thesis by blast
    qed
  next
    assume "\<exists>pre suf. h # hay = pre @ s @ suf"
    then obtain pre suf where eq: "h # hay = pre @ s @ suf" by blast
    show "str_includes (h # hay) s"
    proof (cases pre)
      case Nil
      with eq have "startsWith (h # hay) s" by (auto simp: startsWith_iff)
      then show ?thesis by simp
    next
      case (Cons p pre')
      with eq have "hay = pre' @ s @ suf" by simp
      then have "str_includes hay s" using Cons.IH by blast
      then show ?thesis by simp
    qed
  qed
qed

lemma str_includes_empty: "str_includes hay []"
  by (cases hay) auto

lemma spec_lowered_match_code:
  "spec_lowered_match toLowerCase q text = str_includes (toLowerCase text) (toLowerCase (trim q))"
  by (simp add: spec_lowered_match_def str_includes_iff)

lemma map_eq_appendD:
  assumes "map f xs = ys @ zs"
  shows "\<exists>a b. xs = a @ b \<and> map f a = ys \<and> map f b = zs"
proof -
  have "map f (take (length ys) xs) = take (length ys) (map f xs)"
    by (simp add: take_map)
  then have a: "map f (take (length ys) xs) = ys"
    by (simp add: assms)
  have "map f (drop (length ys) xs) = drop (length ys) (map f xs)"
    by (simp add: drop_map)
  then have b: "map f (drop (length ys) xs) = zs"
    by (simp add: assms)
  have "xs = take (length ys) xs @ drop (length ys) xs"
    by simp
  with a b show ?thesis by blast
qed

text \<open>When the lower-casing works code unit by code unit on every run of a text, the
  lowered query is a run of the lowered text exactly when the query is a case-insensitive
  substring of the text.\<close>

lemma unitwise_lowered_match:
  assumes unitwise: "\<forall>pre w suf. text = pre @ w @ suf \<longrightarrow> toLowerCase w = map f w"
  shows "spec_lowered_match toLowerCase q text = spec_matches toLowerCase q text"
proof
  have "text = [] @ text @ []" by simp
  with unitwise have whole: "toLowerCase text = map f text" by blast
  assume "spec_lowered_match toLowerCase q text"
  then obtain pre suf where "map f text = pre @ (toLowerCase (trim q) @ suf)"
    unfolding spec_lowered_match_def whole by auto
  from map_eq_appendD [OF this]
  obtain a rest where 1: "text = a @ rest" "map f rest = toLowerCase (trim q) @ suf"
    by blast
  from map_eq_appendD [OF 1(2)]
  obtain b c where 2: "rest = b @ c" "map f b = toLowerCase (trim q)"
    by blast
  from 1 2 have run: "text = a @ b @ c" by simp
  with unitwise have "toLowerCase b = map f b" by blast
  with 2 have "toLowerCase b = toLowerCase (trim q)" by simp
  with run show "spec_matches toLowerCase q text"
    unfolding spec_matches_def spec_ci_substring_def by blast
next
  have "text = [] @ text @ []" by simp
  with unitwise have whole: "toLowerCase text = map f text" by blast
  assume "spec_matches toLowerCase q text"
  then obtain pre w suf where run: "text = pre @ w @ suf"
    and w: "toLowerCase w = toLowerCase (trim q)"
    unfolding spec_matches_def spec_ci_substring_def by blast
  from run unitwise have "toLowerCase w = map f w" by blast
  with w have "map f w = toLowerCase (trim q)" by simp
  with run have "toLowerCase text = map f pre @ toLowerCase (trim q) @ map f suf"
    unfolding whole by simp
  then show "spec_lowered_match toLowerCase q text"
    unfolding spec_lowered_match_def by blast
qed

lemma deal_skipped_iff:
  "deal_skipped toLowerCase (toLowerCase (trim q)) d
     \<longleftrightarrow> \<not> spec_lowered_match toLowerCase q (spec_deal_text d)"
proof -
  have hay: "deal_hay toLowerCase d = toLowerCase (spec_deal_text d)"
    by (simp add: deal_hay_def spec_deal_text_def or_empty_def split: option.splits)
  show ?thesis
    by (cases "toLowerCase (trim q) = []")
      (simp_all add: deal_skipped_def hay spec_lowered_match_code str_includes_empty)
qed

lemma new_map_props:
  assumes "new_map st = (m, st')"
  shows "inj m" and "\<And>c. fresh st \<le> m c" and "\<And>c. cells st' (m c) = []"
    and "\<And>a. a < fresh st \<Longrightarrow> cells st' a = cells st a"
proof -
  from assms have m: "m = case_column (fresh st) (Suc (fresh st)) (Suc (Suc (fresh st)))
      (Suc (Suc (Suc (fresh st)))) (Suc (Suc (Suc (Suc (fresh st)))))
      (Suc (Suc (Suc (Suc (Suc (fresh st))))))"
    by (auto simp: new_map_def new_array_def)
  show "inj m"
    unfolding inj_def m by (auto split: column.splits)
  show "\<And>c. fresh st \<le> m c"
    unfolding m by (auto split: column.splits)
  show "\<And>c. cells st' (m c) = []"
    using assms unfolding m by (auto simp: new_map_def new_array_def split: column.splits)
  show "\<And>a. a < fresh st \<Longrightarrow> cells st' a = cells st a"
    using assms by (auto simp: new_map_def new_array_def)
qed

lemma filteredByCol_loop_correct:
  assumes inj: "inj m" and apart: "\<And>c. m c \<noteq> items"
  shows "\<exists>st'. filteredByCol_loop L s items m i st = Some st'
     \<and> (\<forall>a. a \<notin> range m \<longrightarrow> cells st' a = cells st a)
     \<and> (\<forall>c. cells st' (m c) =
            cells st (m c) @ filter (\<lambda>d. \<not> deal_skipped L s d \<and> d_column d = c) (drop i (cells st items)))"
proof (induction "length (cells st items) - i" arbitrary: i st)
  case 0
  then have "filteredByCol_loop L s items m i st = Some st"
    by (subst filteredByCol_loop.simps) simp
  with 0 show ?case by simp
next
  case (Suc n)
  then have lt: "i < length (cells st items)" by simp
  define d where "d = cells st items ! i"
  have dr: "drop i (cells st items) = d # drop (Suc i) (cells st items)"
    using lt by (simp add: d_def Cons_nth_drop_Suc)
  show ?case
  proof (cases "deal_skipped L s d")
    case True
    have n: "n = length (cells st items) - Suc i" using Suc.hyps(2) by simp
    from Suc.hyps(1) [OF n] obtain st' where
      1: "filteredByCol_loop L s items m (Suc i) st = Some st'"
      and 2: "\<forall>a. a \<notin> range m \<longrightarrow> cells st' a = cells st a"
      and 3: "\<forall>c. cells st' (m c) =
            cells st (m c) @ filter (\<lambda>d. \<not> deal_skipped L s d \<and> d_column d = c) (drop (Suc i) (cells st items))"
      by blast
    have "filteredByCol_loop L s items m i st = Some st'"
      using lt True 1 by (subst filteredByCol_loop.simps) (simp add: d_def)
    moreover have "\<forall>c. cells st' (m c) =
            cells st (m c) @ filter (\<lambda>d. \<not> deal_skipped L s d \<and> d_column d = c) (drop i (cells st items))"
      using 3 True by (simp add: dr)
    ultimately show ?thesis using 2 by blast
  next
    case False
    define st1 where "st1 = array_push (m (d_column d)) d st"
    have same: "cells st1 items = cells st items"
      using apart [of "d_column d"] by (auto simp: st1_def array_push_def)
    have n: "n = length (cells st1 items) - Suc i" using Suc.hyps(2) by (simp add: same)
    from Suc.hyps(1) [OF n] obtain st' where
      1: "filteredByCol_loop L s items m (Suc i) st1 = Some st'"
      and 2: "\<forall>a. a \<notin> range m \<longrightarrow> cells st' a = cells st1 a"
      and 3: "\<forall>c. cells st' (m c) =
            cells st1 (m c) @ filter (\<lambda>d. \<not> deal_skipped L s d \<and> d_column d = c) (drop (Suc i) (cells st1 items))"
      by blast
    have "filteredByCol_loop L s items m i st = Some st'"
      using lt False 1 by (subst filteredByCol_loop.simps) (simp add: d_def st1_def)
    moreover have "\<forall>a. a \<notin> range m \<longrightarrow> cells st' a = cells st a"
    proof (intro allI impI)
      fix a assume a: "a \<notin> range m"
      then have "a \<noteq> m (d_column d)" by blast
      then have "cells st1 a = cells st a" by (simp add: st1_def array_push_def)
      with 2 a show "cells st' a = cells st a" by simp
    qed
    moreover have "\<forall>c. cells st' (m c) =
            cells st (m c) @ filter (\<lambda>d. \<not> deal_skipped L s d \<and> d_column d = c) (drop i (cells st items))"
    proof
      fix c
      have mc: "m c = m (d_column d) \<longleftrightarrow> c = d_column d"
        using inj by (auto dest: injD)
      have "cells st1 (m c) = (if c = d_column d then cells st (m c) @ [d] else cells st (m c))"
        using mc by (simp add: st1_def array_push_def)
      then show "cells st' (m c) =
            cells st (m c) @ filter (\<lambda>d. \<not> deal_skipped L s d \<and> d_column d = c) (drop i (cells st items))"
        using 3 False by (auto simp: dr same)
    qed
    ultimately show ?thesis by blast
  qed
qed

lemma filteredByCol_correct:
  assumes "items < fresh st"
  shows "\<exists>m st'. filteredByCol L q items st = Some (m, st')
     \<and> (\<forall>c. cells st' (m c) =
            filter (\<lambda>d. d_column d = c \<and> spec_lowered_match L q (spec_deal_text d)) (cells st items))
     \<and> (\<forall>a. a < fresh st \<longrightarrow> cells st' a = cells st a)"
proof -
  obtain m st1 where nm: "new_map st = (m, st1)" by (cases "new_map st")
  note p = new_map_props [OF nm]
  have apart: "\<And>c. m c \<noteq> items" using p(2) assms by (metis not_less)
  from filteredByCol_loop_correct [OF p(1) apart, of L "L (trim q)" 0 st1]
  obtain st' where
    1: "filteredByCol_loop L (L (trim q)) items m 0 st1 = Some st'"
    and 2: "\<forall>a. a \<notin> range m \<longrightarrow> cells st' a = cells st1 a"
    and 3: "\<forall>c. cells st' (m c) = cells st1 (m c) @
         filter (\<lambda>d. \<not> deal_skipped L (L (trim q)) d \<and> d_column d = c) (drop 0 (cells st1 items))"
    by blast
  have r: "filteredByCol L q items st = Some (m, st')"
    using nm 1 by (simp add: filteredByCol_def)
  have it: "cells st1 items = cells st items" using p(4) assms by simp
  have c: "\<forall>c. cells st' (m c) =
            filter (\<lambda>d. d_column d = c \<and> spec_lowered_match L q (spec_deal_text d)) (cells st items)"
  proof
    fix c
    have "(\<lambda>d. \<not> deal_skipped L (L (trim q)) d \<and> d_column d = c)
        = (\<lambda>d. d_column d = c \<and> spec_lowered_match L q (spec_deal_text d))"
      by (auto simp: deal_skipped_iff)
    then show "cells st' (m c) =
            filter (\<lambda>d. d_column d = c \<and> spec_lowered_match L q (spec_deal_text d)) (cells st items)"
      using 3 p(3) it by simp
  qed
  have u: "\<forall>a. a < fresh st \<longrightarrow> cells st' a = cells st a"
  proof (intro allI impI)
    fix a assume a: "a < fresh st"
    then have "a \<notin> range m" using p(2) by (auto simp: not_le [symmetric])
    with 2 have "cells st' a = cells st1 a" by simp
    with p(4) a show "cells st' a = cells st a" by simp
  qed
  from r c u show ?thesis by blast
qed

lemma contact_kept_iff:
  "contact_kept L (L (trim q)) None None None False c
     \<longleftrightarrow> spec_lowered_match L q (spec_contact_text c)"
proof -
  have hay: "contact_hay L c = L (spec_contact_text c)"
    by (simp add: contact_hay_def spec_contact_text_def or_empty_def)
  show ?thesis
    by (cases "L (trim q) = []")
      (simp_all add: contact_kept_def hay spec_lowered_match_code str_includes_empty)
qed

lemma obligation_kept_iff:
  "obligation_kept L (L (trim q)) ob \<longleftrightarrow> spec_lowered_match L q (spec_obligation_text ob)"
proof -
  have hay: "obligation_hay L ob = L (spec_obligation_text ob)"
    by (simp add: obligation_hay_def spec_obligation_text_def or_empty_def)
  show ?thesis
    by (cases "L (trim q) = []")
      (simp_all add: obligation_kept_def hay spec_lowered_match_code str_includes_empty)
qed

lemma array_filter_correct:
  assumes "rows < fresh st"
  shows "case array_filter p rows st of (r, st') \<Rightarrow>
     cells st' r = filter p (cells st rows) \<and> (\<forall>a<fresh st. cells st' a = cells st a)"
  using assms by (simp add: array_filter_def new_array_def)

lemma calendar_filtered_correct:
  assumes "rows < fresh st"
  shows "case calendar_filtered L q rows st of (r, st') \<Rightarrow>
     cells st' r = filter (\<lambda>ob. spec_lowered_match L q (spec_obligation_text ob)) (cells st rows)
     \<and> (\<forall>a<fresh st. cells st' a = cells st a)"
proof -
  have "obligation_kept L (L (trim q)) = (\<lambda>ob. spec_lowered_match L q (spec_obligation_text ob))"
    by (rule ext) (simp add: obligation_kept_iff)
  then show ?thesis
    using array_filter_correct [OF assms, of "obligation_kept L (L (trim q))"]
    by (simp add: calendar_filtered_def)
qed

lemma contacts_filtered_correct:
  assumes "rows < fresh st"
  shows "case contacts_filtered L q None None None False rows st of (r, st') \<Rightarrow>
     cells st' r = filter (\<lambda>c. spec_lowered_match L q (spec_contact_text c)) (cells st rows)
     \<and> (\<forall>a<fresh st. cells st' a = cells st a)"
proof -
  have "contact_kept L (L (trim q)) None None None False
      = (\<lambda>c. spec_lowered_match L q (spec_contact_text c))"
    by (rule ext) (simp add: contact_kept_iff)
  then show ?thesis
    using array_filter_correct [OF assms, of "contact_kept L (L (trim q)) None None None False"]
    by (simp add: contacts_filtered_def)
qed

text \<open>
  C2, as amended. The three filtered views, the selects of the contacts page at \<open>Todos\<close>
  and its check box off, for any lower-casing the engine may have. Computed for an array
  allocated in the store, each view holds exactly the elements of the collection, in
  their order, for which the lower-case form of the trimmed query is a contiguous run of
  the lower-case form of the searchable text (for the deals, per column); an array that
  existed before, the collection among them, has the elements it had; a query whose
  trimmed lower-case form is empty matches every text; and for a searchable text on
  every run of which the lower-casing works code unit by code unit, as it does on a text
  of Basic Latin and Latin-1, that is so exactly when the text has the trimmed query as a
  case-insensitive substring. The loop over the deals runs to its end.
\<close>

theorem projections_filter_by_query:
  "(items < fresh dst \<longrightarrow>
      (\<exists>m dst'. filteredByCol toLowerCase q items dst = Some (m, dst')
         \<and> (\<forall>c. cells dst' (m c) =
               filter (\<lambda>d. d_column d = c \<and> spec_lowered_match toLowerCase q (spec_deal_text d))
                 (cells dst items))
         \<and> (\<forall>a<fresh dst. cells dst' a = cells dst a)))
   \<and> (crows < fresh cst \<longrightarrow>
      (case contacts_filtered toLowerCase q None None None False crows cst of (r, cst') \<Rightarrow>
         cells cst' r =
           filter (\<lambda>c. spec_lowered_match toLowerCase q (spec_contact_text c)) (cells cst crows)
         \<and> (\<forall>a<fresh cst. cells cst' a = cells cst a)))
   \<and> (orows < fresh ost \<longrightarrow>
      (case calendar_filtered toLowerCase q orows ost of (r, ost') \<Rightarrow>
         cells ost' r =
           filter (\<lambda>ob. spec_lowered_match toLowerCase q (spec_obligation_text ob)) (cells ost orows)
         \<and> (\<forall>a<fresh ost. cells ost' a = cells ost a)))
   \<and> (toLowerCase (trim q) = [] \<longrightarrow> (\<forall>text. spec_lowered_match toLowerCase q text))
   \<and> ((\<forall>pre w suf. searchable = pre @ w @ suf \<longrightarrow> toLowerCase w = map f w) \<longrightarrow>
        spec_lowered_match toLowerCase q searchable = spec_matches toLowerCase q searchable)"
proof -
  have d: "items < fresh dst \<longrightarrow>
      (\<exists>m dst'. filteredByCol toLowerCase q items dst = Some (m, dst')
         \<and> (\<forall>c. cells dst' (m c) =
               filter (\<lambda>d. d_column d = c \<and> spec_lowered_match toLowerCase q (spec_deal_text d))
                 (cells dst items))
         \<and> (\<forall>a<fresh dst. cells dst' a = cells dst a))"
    using filteredByCol_correct by blast
  have c: "crows < fresh cst \<longrightarrow>
      (case contacts_filtered toLowerCase q None None None False crows cst of (r, cst') \<Rightarrow>
         cells cst' r =
           filter (\<lambda>c. spec_lowered_match toLowerCase q (spec_contact_text c)) (cells cst crows)
         \<and> (\<forall>a<fresh cst. cells cst' a = cells cst a))"
    by (intro impI contacts_filtered_correct)
  have ob: "orows < fresh ost \<longrightarrow>
      (case calendar_filtered toLowerCase q orows ost of (r, ost') \<Rightarrow>
         cells ost' r =
           filter (\<lambda>ob. spec_lowered_match toLowerCase q (spec_obligation_text ob)) (cells ost orows)
         \<and> (\<forall>a<fresh ost. cells ost' a = cells ost a))"
    by (intro impI calendar_filtered_correct)
  have e: "toLowerCase (trim q) = [] \<longrightarrow> (\<forall>text. spec_lowered_match toLowerCase q text)"
    by (simp add: spec_lowered_match_code str_includes_empty)
  have u: "(\<forall>pre w suf. searchable = pre @ w @ suf \<longrightarrow> toLowerCase w = map f w) \<longrightarrow>
        spec_lowered_match toLowerCase q searchable = spec_matches toLowerCase q searchable"
    by (intro impI unitwise_lowered_match)
  show ?thesis by (intro conjI d c ob e u)
qed

text \<open>
  The claim as stated fails where the lower-casing depends on the context. A deal and an
  obligation titled capital alpha, capital sigma contain the query capital sigma as it
  is; the page lower-cases the title to small alpha, final sigma and the query to a small
  sigma, and lists neither.
\<close>

theorem final_sigma_counterexample:
  "spec_matches toLowerCase_sigma [0x3A3]
      (spec_deal_text ((sample_deal 1 Novo)\<lparr>d_title := [0x391, 0x3A3]\<rparr>))
   \<and> map_option (\<lambda>(m, st'). cells st' (m Novo))
        (filteredByCol toLowerCase_sigma [0x3A3] 0
           \<lparr>cells = (\<lambda>a. [])(0 := [(sample_deal 1 Novo)\<lparr>d_title := [0x391, 0x3A3]\<rparr>]),
            fresh = 1\<rparr>)
      = Some []
   \<and> spec_matches toLowerCase_sigma [0x3A3]
      (spec_obligation_text
         ((sample_obligation 1 ''2024-01-01T09:00'' Open)\<lparr>o_title := [0x391, 0x3A3]\<rparr>))
   \<and> (case calendar_filtered toLowerCase_sigma [0x3A3] 0
           \<lparr>cells = (\<lambda>a. [])(0 :=
              [(sample_obligation 1 ''2024-01-01T09:00'' Open)\<lparr>o_title := [0x391, 0x3A3]\<rparr>]),
            fresh = 1\<rparr> of
        (r, st') \<Rightarrow> cells st' r)
      = []"
proof -
  let ?d = "(sample_deal 1 Novo)\<lparr>d_title := [0x391, 0x3A3]\<rparr>"
  let ?o = "(sample_obligation 1 ''2024-01-01T09:00'' Open)\<lparr>o_title := [0x391, 0x3A3]\<rparr>"
  let ?dst = "\<lparr>cells = (\<lambda>a. [])(0 := [?d]), fresh = 1\<rparr>"
  let ?ost = "\<lparr>cells = (\<lambda>a. [])(0 := [?o]), fresh = 1\<rparr>"
  have t: "trim [0x3A3] = [0x3A3]"
    by (simp add: trim_def is_space_def)
  have dt: "spec_deal_text ?d = [0x391, 0x3A3, 0x20]"
    by (simp add: spec_deal_text_def sample_deal_def)
  have ot: "spec_obligation_text ?o = [0x391, 0x3A3, 0x20]"
    by (simp add: spec_obligation_text_def sample_obligation_def)
  have run: "[0x391, 0x3A3, 0x20] = [0x391] @ [0x3A3] @ ([0x20] :: jstring)"
    by simp
  have m: "spec_matches toLowerCase_sigma [0x3A3] [0x391, 0x3A3, 0x20]"
    unfolding spec_matches_def spec_ci_substring_def t using run by blast
  have n: "\<not> spec_lowered_match toLowerCase_sigma [0x3A3] [0x391, 0x3A3, 0x20]"
    by (simp add: spec_lowered_match_code t toLowerCase_sigma_def)
  have 1: "spec_matches toLowerCase_sigma [0x3A3] (spec_deal_text ?d)"
    using m by (simp only: dt)
  have 3: "spec_matches toLowerCase_sigma [0x3A3] (spec_obligation_text ?o)"
    using m by (simp only: ot)
  have h: "0 < fresh ?dst" by simp
  from filteredByCol_correct [OF h, of toLowerCase_sigma "[0x3A3]"] obtain mp st' where
    r: "filteredByCol toLowerCase_sigma [0x3A3] 0 ?dst = Some (mp, st')"
    and f: "\<forall>c. cells st' (mp c) =
        filter (\<lambda>d. d_column d = c \<and> spec_lowered_match toLowerCase_sigma [0x3A3] (spec_deal_text d))
          (cells ?dst 0)"
    by blast
  have "cells st' (mp Novo) = []"
    using f n by (simp add: dt)
  then have 2: "map_option (\<lambda>(m, st'). cells st' (m Novo))
      (filteredByCol toLowerCase_sigma [0x3A3] 0 ?dst) = Some []"
    unfolding r by simp
  have h': "0 < fresh ?ost" by simp
  have 4: "(case calendar_filtered toLowerCase_sigma [0x3A3] 0 ?ost of (r, st') \<Rightarrow> cells st' r) = []"
    using calendar_filtered_correct [OF h', of toLowerCase_sigma "[0x3A3]"] n
    by (auto simp: ot split: prod.splits)
  show ?thesis by (intro conjI 1 2 3 4)
qed

text \<open>Three deals and the query \<open>ANA\<close> between spaces (matched by a title and by a
  tag), two contacts, and a blank query on the obligations page, with the lower-casing of
  Latin-1 text.\<close>

theorem projections_witness:
  "(\<exists>m st'. filteredByCol toLowerCase_latin1 (js ''  ANA '') 0
        \<lparr>cells = (\<lambda>a. [])(0 := [(sample_deal 1 Novo)\<lparr>d_title := js ''Ana Lima''\<rparr>,
                                 (sample_deal 2 Ganho)\<lparr>d_title := js ''Bruno'', d_tags := Some [js ''b2b'', js ''Ana'']\<rparr>,
                                 (sample_deal 3 Novo)\<lparr>d_title := js ''Caio''\<rparr>]),
         fresh = 1\<rparr> = Some (m, st')
      \<and> cells st' (m Novo) = [(sample_deal 1 Novo)\<lparr>d_title := js ''Ana Lima''\<rparr>]
      \<and> cells st' (m Ganho) = [(sample_deal 2 Ganho)\<lparr>d_title := js ''Bruno'', d_tags := Some [js ''b2b'', js ''Ana'']\<rparr>]
      \<and> cells st' (m Perdido) = []
      \<and> cells st' 0 = [(sample_deal 1 Novo)\<lparr>d_title := js ''Ana Lima''\<rparr>,
                        (sample_deal 2 Ganho)\<lparr>d_title := js ''Bruno'', d_tags := Some [js ''b2b'', js ''Ana'']\<rparr>,
                        (sample_deal 3 Novo)\<lparr>d_title := js ''Caio''\<rparr>])
   \<and> (case contacts_filtered toLowerCase_latin1 (js ''bia'') None None None False 0
        \<lparr>cells = (\<lambda>a. [])(0 := [sample_contact 1 ''Ana'' True, sample_contact 2 ''Bia'' False]),
         fresh = 1\<rparr> of
       (r, st') \<Rightarrow> cells st' r = [sample_contact 2 ''Bia'' False]
          \<and> cells st' 0 = [sample_contact 1 ''Ana'' True, sample_contact 2 ''Bia'' False])
   \<and> (case calendar_filtered toLowerCase_latin1 (js ''  '') 0
        \<lparr>cells = (\<lambda>a. [])(0 := [sample_obligation 1 ''2024-01-01T09:00'' Open]), fresh = 1\<rparr> of
       (r, st') \<Rightarrow> cells st' r = [sample_obligation 1 ''2024-01-01T09:00'' Open]
          \<and> cells st' 0 = [sample_obligation 1 ''2024-01-01T09:00'' Open])
   \<and> spec_matches toLowerCase_latin1 (js ''  ANA '')
        (spec_deal_text ((sample_deal 1 Novo)\<lparr>d_title := js ''Ana Lima''\<rparr>))"
proof -
  let ?L = toLowerCase_latin1
  let ?d1 = "(sample_deal 1 Novo)\<lparr>d_title := js ''Ana Lima''\<rparr>"
  let ?d2 = "(sample_deal 2 Ganho)\<lparr>d_title := js ''Bruno'', d_tags := Some [js ''b2b'', js ''Ana'']\<rparr>"
  let ?d3 = "(sample_deal 3 Novo)\<lparr>d_title := js ''Caio''\<rparr>"
  let ?dst = "\<lparr>cells = (\<lambda>a. [])(0 := [?d1, ?d2, ?d3]), fresh = 1\<rparr>"
  let ?cst = "\<lparr>cells = (\<lambda>a. [])(0 := [sample_contact 1 ''Ana'' True, sample_contact 2 ''Bia'' False]),
         fresh = 1\<rparr>"
  let ?ost = "\<lparr>cells = (\<lambda>a. [])(0 := [sample_obligation 1 ''2024-01-01T09:00'' Open]), fresh = 1\<rparr>"
  note ev = spec_lowered_match_code spec_deal_text_def spec_contact_text_def
    spec_obligation_text_def sample_deal_def sample_contact_def sample_obligation_def
    toLowerCase_latin1_def lower_unit_def trim_def is_space_def js_def
  have m1: "spec_lowered_match ?L (js ''  ANA '') (spec_deal_text ?d1)" by (simp add: ev)
  have m2: "spec_lowered_match ?L (js ''  ANA '') (spec_deal_text ?d2)" by (simp add: ev)
  have m3: "\<not> spec_lowered_match ?L (js ''  ANA '') (spec_deal_text ?d3)" by (simp add: ev)
  have c1: "\<not> spec_lowered_match ?L (js ''bia'') (spec_contact_text (sample_contact 1 ''Ana'' True))"
    by (simp add: ev)
  have c2: "spec_lowered_match ?L (js ''bia'') (spec_contact_text (sample_contact 2 ''Bia'' False))"
    by (simp add: ev)
  have blank: "?L (trim (js ''  '')) = []"
    by (simp add: toLowerCase_latin1_def trim_def is_space_def js_def)
  have unitwise: "\<forall>pre w suf. spec_deal_text ?d1 = pre @ w @ suf \<longrightarrow> ?L w = map lower_unit w"
    by (simp add: toLowerCase_latin1_def)
  note T = projections_filter_by_query
    [where toLowerCase = ?L and f = lower_unit and items = 0 and dst = ?dst
       and q = "js ''  ANA ''" and crows = 0 and cst = ?cst and orows = 0 and ost = ?ost
       and searchable = "spec_deal_text ?d1"]
  note U = projections_filter_by_query
    [where toLowerCase = ?L and f = lower_unit and items = 0 and dst = ?dst
       and q = "js ''bia''" and crows = 0 and cst = ?cst and orows = 0 and ost = ?ost]
  note V = projections_filter_by_query
    [where toLowerCase = ?L and f = lower_unit and items = 0 and dst = ?dst
       and q = "js ''  ''" and crows = 0 and cst = ?cst and orows = 0 and ost = ?ost]
  have hd: "0 < fresh ?dst" and hc: "0 < fresh ?cst" and ho: "0 < fresh ?ost"
    by simp_all
  from T [THEN conjunct1, THEN mp, OF hd] obtain m st' where
    r: "filteredByCol ?L (js ''  ANA '') 0 ?dst = Some (m, st')"
    and f: "\<forall>c. cells st' (m c) =
        filter (\<lambda>d. d_column d = c \<and> spec_lowered_match ?L (js ''  ANA '') (spec_deal_text d))
          (cells ?dst 0)"
    and u: "\<forall>a<fresh ?dst. cells st' a = cells ?dst a"
    by blast
  have k1: "cells st' (m Novo) = [?d1]"
    using f m1 m2 m3 by (simp add: sample_deal_def)
  have k2: "cells st' (m Ganho) = [?d2]"
    using f m1 m2 m3 by (simp add: sample_deal_def)
  have k3: "cells st' (m Perdido) = []"
    using f by (simp add: sample_deal_def)
  have k4: "cells st' 0 = [?d1, ?d2, ?d3]"
    using u by simp
  have K: "\<exists>m st'. filteredByCol ?L (js ''  ANA '') 0 ?dst = Some (m, st')
      \<and> cells st' (m Novo) = [?d1] \<and> cells st' (m Ganho) = [?d2]
      \<and> cells st' (m Perdido) = [] \<and> cells st' 0 = [?d1, ?d2, ?d3]"
    using r k1 k2 k3 k4 by blast
  have C: "case contacts_filtered ?L (js ''bia'') None None None False 0 ?cst of
       (r, st') \<Rightarrow> cells st' r = [sample_contact 2 ''Bia'' False]
          \<and> cells st' 0 = [sample_contact 1 ''Ana'' True, sample_contact 2 ''Bia'' False]"
    using U [THEN conjunct2, THEN conjunct1, THEN mp, OF hc] c1 c2
    by (auto split: prod.splits)
  have all: "\<forall>text. spec_lowered_match ?L (js ''  '') text"
    using V [THEN conjunct2, THEN conjunct2, THEN conjunct2, THEN conjunct1, THEN mp, OF blank] .
  have O: "case calendar_filtered ?L (js ''  '') 0 ?ost of
       (r, st') \<Rightarrow> cells st' r = [sample_obligation 1 ''2024-01-01T09:00'' Open]
          \<and> cells st' 0 = [sample_obligation 1 ''2024-01-01T09:00'' Open]"
    using V [THEN conjunct2, THEN conjunct2, THEN conjunct1, THEN mp, OF ho] all
    by (auto split: prod.splits)
  have S: "spec_matches ?L (js ''  ANA '') (spec_deal_text ?d1)"
    using T [THEN conjunct2, THEN conjunct2, THEN conjunct2, THEN conjunct2, THEN mp, OF unitwise]
      m1 by simp
  show ?thesis by (intro conjI K C O S)
qed

section \<open>Removal\<close>

lemma filter_out_unique:
  assumes "key x = i" and "\<forall>y\<in>set (pre @ suf). key y \<noteq> i"
  shows "filter (\<lambda>y. key y \<noteq> i) (pre @ x # suf) = pre @ suf"
  using assms by (simp add: filter_id_conv)

text \<open>
  C3. \<open>remove\<close> on each of the three pages. Once the user has confirmed it, it
  captures the collection as its snapshot, filters out the entities whose identity is
  the given one and issues the delete call. When the call resolves, the collection is
  the original filtered so; for a collection in which exactly one entity has that
  identity, this is the original without that entity, the others in their order. When
  the call rejects, the page is as it was before the handler. When the user declines,
  the handler returns at once: the page is unchanged and no call is issued, so that none
  resolves or rejects.
\<close>

theorem remove_success_and_failure:
  "kanban_remove_begin True kst i =
      (kst\<lparr>kb_items := filter (\<lambda>x. d_id x \<noteq> i) (kb_items kst)\<rparr>, Some (DeleteDeal i, kb_items kst))
   \<and> kb_items (kanban_remove True kst i (Resolved v :: 'a outcome)) = filter (\<lambda>x. d_id x \<noteq> i) (kb_items kst)
   \<and> (kb_items kst = dpre @ dx # dsuf \<and> d_id dx = i \<and> (\<forall>y\<in>set (dpre @ dsuf). d_id y \<noteq> i)
        \<longrightarrow> kb_items (kanban_remove True kst i (Resolved v :: 'a outcome)) = dpre @ dsuf)
   \<and> kanban_remove True kst i (Rejected e :: 'a outcome) = kst
   \<and> calendar_remove_begin True cst j =
      (cst\<lparr>cal_rows := filter (\<lambda>x. o_id x \<noteq> j) (cal_rows cst)\<rparr>, Some (DeleteObligation j, cal_rows cst))
   \<and> cal_rows (calendar_remove True cst j (Resolved v :: 'a outcome)) = filter (\<lambda>x. o_id x \<noteq> j) (cal_rows cst)
   \<and> (cal_rows cst = opre @ ox # osuf \<and> o_id ox = j \<and> (\<forall>y\<in>set (opre @ osuf). o_id y \<noteq> j)
        \<longrightarrow> cal_rows (calendar_remove True cst j (Resolved v :: 'a outcome)) = opre @ osuf)
   \<and> calendar_remove True cst j (Rejected e :: 'a outcome) = cst
   \<and> contacts_remove_begin True nst k =
      (nst\<lparr>con_rows := filter (\<lambda>x. c_id x \<noteq> k) (con_rows nst)\<rparr>, Some (DeleteContact k, con_rows nst))
   \<and> con_rows (contacts_remove True nst k (Resolved v :: 'a outcome)) = filter (\<lambda>x. c_id x \<noteq> k) (con_rows nst)
   \<and> (con_rows nst = cpre @ cx # csuf \<and> c_id cx = k \<and> (\<forall>y\<in>set (cpre @ csuf). c_id y \<noteq> k)
        \<longrightarrow> con_rows (contacts_remove True nst k (Resolved v :: 'a outcome)) = cpre @ csuf)
   \<and> contacts_remove True nst k (Rejected e :: 'a outcome) = nst
   \<and> kanban_remove_begin False kst i = (kst, None)
   \<and> calendar_remove_begin False cst j = (cst, None)
   \<and> contacts_remove_begin False nst k = (nst, None)"
proof -
  have k: "kb_items kst = dpre @ dx # dsuf \<and> d_id dx = i \<and> (\<forall>y\<in>set (dpre @ dsuf). d_id y \<noteq> i)
        \<longrightarrow> filter (\<lambda>x. d_id x \<noteq> i) (kb_items kst) = dpre @ dsuf"
    using filter_out_unique [of d_id dx i dpre dsuf] by simp
  have c: "cal_rows cst = opre @ ox # osuf \<and> o_id ox = j \<and> (\<forall>y\<in>set (opre @ osuf). o_id y \<noteq> j)
        \<longrightarrow> filter (\<lambda>x. o_id x \<noteq> j) (cal_rows cst) = opre @ osuf"
    using filter_out_unique [of o_id ox j opre osuf] by simp
  have n: "con_rows nst = cpre @ cx # csuf \<and> c_id cx = k \<and> (\<forall>y\<in>set (cpre @ csuf). c_id y \<noteq> k)
        \<longrightarrow> filter (\<lambda>x. c_id x \<noteq> k) (con_rows nst) = cpre @ csuf"
    using filter_out_unique [of c_id cx k cpre csuf] by simp
  have 1: "kb_items (kanban_remove True kst i (Resolved v :: 'a outcome)) = filter (\<lambda>x. d_id x \<noteq> i) (kb_items kst)"
    by (simp add: kanban_remove_def kanban_remove_begin_def kanban_remove_resume_def)
  have 2: "cal_rows (calendar_remove True cst j (Resolved v :: 'a outcome)) = filter (\<lambda>x. o_id x \<noteq> j) (cal_rows cst)"
    by (simp add: calendar_remove_def calendar_remove_begin_def calendar_remove_resume_def)
  have 3: "con_rows (contacts_remove True nst k (Resolved v :: 'a outcome)) = filter (\<lambda>x. c_id x \<noteq> k) (con_rows nst)"
    by (simp add: contacts_remove_def contacts_remove_begin_def contacts_remove_resume_def)
  have 4: "kanban_remove True kst i (Rejected e :: 'a outcome) = kst"
    by (simp add: kanban_remove_def kanban_remove_begin_def kanban_remove_resume_def)
  have 5: "calendar_remove True cst j (Rejected e :: 'a outcome) = cst"
    by (simp add: calendar_remove_def calendar_remove_begin_def calendar_remove_resume_def)
  have 6: "contacts_remove True nst k (Rejected e :: 'a outcome) = nst"
    by (simp add: contacts_remove_def contacts_remove_begin_def contacts_remove_resume_def)
  have 7: "kanban_remove_begin True kst i =
      (kst\<lparr>kb_items := filter (\<lambda>x. d_id x \<noteq> i) (kb_items kst)\<rparr>, Some (DeleteDeal i, kb_items kst))"
    by (simp add: kanban_remove_begin_def)
  have 8: "calendar_remove_begin True cst j =
      (cst\<lparr>cal_rows := filter (\<lambda>x. o_id x \<noteq> j) (cal_rows cst)\<rparr>, Some (DeleteObligation j, cal_rows cst))"
    by (simp add: calendar_remove_begin_def)
  have 9: "contacts_remove_begin True nst k =
      (nst\<lparr>con_rows := filter (\<lambda>x. c_id x \<noteq> k) (con_rows nst)\<rparr>, Some (DeleteContact k, con_rows nst))"
    by (simp add: contacts_remove_begin_def)
  have 10: "kanban_remove_begin False kst i = (kst, None)"
    by (simp add: kanban_remove_begin_def)
  have 11: "calendar_remove_begin False cst j = (cst, None)"
    by (simp add: calendar_remove_begin_def)
  have 12: "contacts_remove_begin False nst k = (nst, None)"
    by (simp add: contacts_remove_begin_def)
  from k c n show ?thesis
    unfolding 1 2 3 4 5 6 7 8 9 10 11 12 by blast
qed

text \<open>Scenario D on each page: the identities 7 and 8, and 7 removed.\<close>

theorem remove_scenario_D_witness:
  "kb_items (kanban_remove True (sample_kanban [sample_deal 7 Novo, sample_deal 8 Novo]) 7 (Resolved ()))
      = [sample_deal 8 Novo]
   \<and> kb_items (kanban_remove True (sample_kanban [sample_deal 7 Novo, sample_deal 8 Novo]) 7
        (Rejected ''HTTP 500'' :: unit outcome))
      = [sample_deal 7 Novo, sample_deal 8 Novo]
   \<and> cal_rows (calendar_remove True
        (sample_calendar [sample_obligation 7 ''2024-01-01T09:00'' Open,
                          sample_obligation 8 ''2024-01-02T09:00'' Open]) 7 (Resolved ()))
      = [sample_obligation 8 ''2024-01-02T09:00'' Open]
   \<and> cal_rows (calendar_remove True
        (sample_calendar [sample_obligation 7 ''2024-01-01T09:00'' Open,
                          sample_obligation 8 ''2024-01-02T09:00'' Open]) 7
        (Rejected ''HTTP 500'' :: unit outcome))
      = [sample_obligation 7 ''2024-01-01T09:00'' Open, sample_obligation 8 ''2024-01-02T09:00'' Open]
   \<and> con_rows (contacts_remove True
        (sample_contacts [sample_contact 7 ''Ana'' True, sample_contact 8 ''Bia'' True]) 7 (Resolved ()))
      = [sample_contact 8 ''Bia'' True]
   \<and> con_rows (contacts_remove True
        (sample_contacts [sample_contact 7 ''Ana'' True, sample_contact 8 ''Bia'' True]) 7
        (Rejected ''HTTP 500'' :: unit outcome))
      = [sample_contact 7 ''Ana'' True, sample_contact 8 ''Bia'' True]"
  using remove_success_and_failure
    [where kst = "sample_kanban [sample_deal 7 Novo, sample_deal 8 Novo]" and i = 7
       and dpre = "[]" and dx = "sample_deal 7 Novo" and dsuf = "[sample_deal 8 Novo]"
       and v = "()" and e = "''HTTP 500''"
       and cst = "sample_calendar [sample_obligation 7 ''2024-01-01T09:00'' Open,
                          sample_obligation 8 ''2024-01-02T09:00'' Open]" and j = 7
       and opre = "[]" and ox = "sample_obligation 7 ''2024-01-01T09:00'' Open"
       and osuf = "[sample_obligation 8 ''2024-01-02T09:00'' Open]"
       and nst = "sample_contacts [sample_contact 7 ''Ana'' True, sample_contact 8 ''Bia'' True]"
       and k = 7 and cpre = "[]" and cx = "sample_contact 7 ''Ana'' True"
       and csuf = "[sample_contact 8 ''Bia'' True]"]
  by (simp add: sample_kanban_def sample_deal_def sample_calendar_def sample_obligation_def
      sample_contacts_def sample_contact_def)

section \<open>The buckets of obligations\<close>

lemma mset_insert_sorted: "mset (insert_sorted cmp x ys) = add_mset x (mset ys)"
  by (induction ys) auto

lemma mset_stable_sort: "mset (stable_sort comparefn xs) = mset xs"
  by (induction xs) (auto simp: stable_sort_def mset_insert_sorted)

lemma set_insert_sorted: "set (insert_sorted cmp x ys) = insert x (set ys)"
  by (induction ys) auto

lemma set_stable_sort: "set (stable_sort comparefn xs) = set xs"
  by (induction xs) (auto simp: stable_sort_def set_insert_sorted)

lemma sorted_insert_sorted:
  assumes "sorted_wrt (\<lambda>a b. key a \<le> key b) ys"
  shows "sorted_wrt (\<lambda>a b. key a \<le> key b) (insert_sorted (\<lambda>a b. key a - key b) x ys)"
  using assms
proof (induction ys)
  case Nil
  then show ?case by simp
next
  case (Cons y ys)
  show ?case
  proof (cases "key x - key y \<le> (0::int)")
    case True
    then have "\<forall>z\<in>set (y # ys). key x \<le> key z" using Cons.prems by auto
    with True Cons.prems show ?thesis by simp
  next
    case False
    then have "key y \<le> key x" by simp
    with False Cons show ?thesis by (auto simp: set_insert_sorted)
  qed
qed

lemma insert_sorted_cong:
  "(\<And>y. y \<in> set ys \<Longrightarrow> f x y = g x y) \<Longrightarrow> insert_sorted f x ys = insert_sorted g x ys"
  by (induction ys) auto

lemma stable_sort_by_due:
  assumes "\<forall>ob\<in>set xs. Date (o_due_date ob) \<noteq> None"
  shows "stable_sort (by_due Date) xs =
     foldr (insert_sorted (\<lambda>a b. the (Date (o_due_date a)) - the (Date (o_due_date b)))) xs []"
  using assms
proof (induction xs)
  case Nil
  then show ?case by (simp add: stable_sort_def)
next
  case (Cons x xs)
  let ?f = "\<lambda>a b. case by_due Date a b of None \<Rightarrow> 0 | Some v \<Rightarrow> v"
  let ?g = "\<lambda>a b. the (Date (o_due_date a)) - the (Date (o_due_date b))"
  have ih: "foldr (insert_sorted ?f) xs [] = foldr (insert_sorted ?g) xs []"
    using Cons by (simp add: stable_sort_def)
  have "set (foldr (insert_sorted ?g) xs []) = set xs"
    by (induction xs) (auto simp: set_insert_sorted)
  then have "\<And>y. y \<in> set (foldr (insert_sorted ?g) xs []) \<Longrightarrow> ?f x y = ?g x y"
    using Cons.prems by (auto simp: by_due_def split: option.splits)
  then have "insert_sorted ?f x (foldr (insert_sorted ?g) xs [])
      = insert_sorted ?g x (foldr (insert_sorted ?g) xs [])"
    by (rule insert_sorted_cong)
  with ih show ?case by (simp add: stable_sort_def)
qed

lemma sorted_foldr_insert:
  "sorted_wrt (\<lambda>a b. key a \<le> key b) (foldr (insert_sorted (\<lambda>a b. key a - key b)) xs [])"
  by (induction xs) (auto intro: sorted_insert_sorted)

lemma ascending_stable_sort:
  assumes "\<forall>ob\<in>set xs. Date (o_due_date ob) \<noteq> None"
  shows "spec_ascending Date (stable_sort (by_due Date) xs)"
proof -
  let ?key = "\<lambda>a. the (Date (o_due_date a))"
  have s: "sorted_wrt (\<lambda>a b. ?key a \<le> ?key b) (stable_sort (by_due Date) xs)"
    unfolding stable_sort_by_due [OF assms] by (rule sorted_foldr_insert)
  have v: "\<forall>ob\<in>set (stable_sort (by_due Date) xs). Date (o_due_date ob) \<noteq> None"
    using assms by (simp add: set_stable_sort)
  show ?thesis
    unfolding spec_ascending_def
    by (rule sorted_wrt_mono_rel [OF _ s]) (use v in \<open>auto split: option.splits\<close>)
qed

text \<open>The difference of the time values is a consistent comparison function for an array
  exactly when every due date in it is a valid date.\<close>

lemma consistent_by_due:
  "consistent (by_due Date) xs \<longleftrightarrow> (\<forall>ob\<in>set xs. Date (o_due_date ob) \<noteq> None)"
proof
  assume c: "consistent (by_due Date) xs"
  show "\<forall>ob\<in>set xs. Date (o_due_date ob) \<noteq> None"
  proof
    fix ob assume "ob \<in> set xs"
    with c have "by_due Date ob ob \<noteq> None"
      unfolding consistent_def list_all_iff by blast
    then show "Date (o_due_date ob) \<noteq> None"
      by (auto simp: by_due_def split: option.splits)
  qed
next
  assume v: "\<forall>ob\<in>set xs. Date (o_due_date ob) \<noteq> None"
  show "consistent (by_due Date) xs"
    unfolding consistent_def list_all_iff
  proof (intro ballI)
    fix a b c assume "a \<in> set xs" "b \<in> set xs" "c \<in> set xs"
    with v have "Date (o_due_date a) \<noteq> None" "Date (o_due_date b) \<noteq> None"
      "Date (o_due_date c) \<noteq> None"
      by blast+
    then obtain x y z where
      "Date (o_due_date a) = Some x" "Date (o_due_date b) = Some y" "Date (o_due_date c) = Some z"
      by blast
    then show "by_due Date a b \<noteq> None
       \<and> cf_eq (by_due Date) a a
       \<and> (cf_eq (by_due Date) a b \<longrightarrow> cf_eq (by_due Date) b a)
       \<and> (cf_eq (by_due Date) a b \<and> cf_eq (by_due Date) b c \<longrightarrow> cf_eq (by_due Date) a c)
       \<and> (cf_lt (by_due Date) a b \<and> cf_lt (by_due Date) b c \<longrightarrow> cf_lt (by_due Date) a c)
       \<and> (cf_gt (by_due Date) a b \<and> cf_gt (by_due Date) b c \<longrightarrow> cf_gt (by_due Date) a c)"
      by (simp add: by_due_def cf_eq_def cf_lt_def cf_gt_def)
  qed
qed

lemma Section_valid:
  assumes "\<forall>ob\<in>set xs. Date (o_due_date ob) \<noteq> None"
  shows "Section Date engine xs = stable_sort (by_due Date) xs"
  using assms by (simp add: Section_def array_sort_def consistent_by_due stable_sort_def)

lemma ascending_Section:
  assumes "\<forall>ob\<in>set xs. Date (o_due_date ob) \<noteq> None"
  shows "spec_ascending Date (Section Date engine xs)"
  unfolding Section_valid [OF assms] by (rule ascending_stable_sort [OF assms])

lemma mset_Section_valid:
  assumes "\<forall>ob\<in>set xs. Date (o_due_date ob) \<noteq> None"
  shows "mset (Section Date engine xs) = mset xs"
  unfolding Section_valid [OF assms] by (rule mset_stable_sort)

lemma mset_Section_engine:
  assumes "\<forall>cmp ys. mset (engine cmp ys) = mset ys"
  shows "mset (Section Date engine xs) = mset xs"
  using assms by (simp add: Section_def array_sort_def mset_stable_sort)

text \<open>An obligation without a valid due date passes neither test, whatever the clock
  reads; with a clock that reads the same time throughout, the two filters test every
  obligation against that time.\<close>

lemma fst_overdue_filter_Cons:
  "fst (overdue_filter Date clock k (ob # obs)) =
     (if o_status ob = Open then
        (if date_lt (Date (o_due_date ob)) (clock k)
         then ob # fst (overdue_filter Date clock (Suc k) obs)
         else fst (overdue_filter Date clock (Suc k) obs))
      else fst (overdue_filter Date clock k obs))"
  by (simp split: prod.splits)

lemma fst_upcoming_filter_Cons:
  "fst (upcoming_filter Date clock k (ob # obs)) =
     (if o_status ob = Open then
        (if date_ge (Date (o_due_date ob)) (clock k)
         then ob # fst (upcoming_filter Date clock (Suc k) obs)
         else fst (upcoming_filter Date clock (Suc k) obs))
      else fst (upcoming_filter Date clock k obs))"
  by (simp split: prod.splits)

lemma overdue_filter_valid:
  "ob \<in> set (fst (overdue_filter Date clock k xs)) \<Longrightarrow> Date (o_due_date ob) \<noteq> None"
proof (induction xs arbitrary: k)
  case Nil
  then show ?case by simp
next
  case (Cons x xs)
  then show ?case
    unfolding fst_overdue_filter_Cons
    by (auto simp: date_lt_def split: if_splits option.splits)
qed

lemma upcoming_filter_valid:
  "ob \<in> set (fst (upcoming_filter Date clock k xs)) \<Longrightarrow> Date (o_due_date ob) \<noteq> None"
proof (induction xs arbitrary: k)
  case Nil
  then show ?case by simp
next
  case (Cons x xs)
  then show ?case
    unfolding fst_upcoming_filter_Cons
    by (auto simp: date_ge_def split: if_splits option.splits)
qed

lemma overdue_filter_steady:
  assumes "\<forall>k. clock k = t"
  shows "fst (overdue_filter Date clock k xs) =
     filter (\<lambda>ob. o_status ob = Open \<and> (\<exists>d. Date (o_due_date ob) = Some d \<and> d < t)) xs"
proof (induction xs arbitrary: k)
  case Nil
  show ?case by simp
next
  case (Cons x xs)
  show ?case
    unfolding fst_overdue_filter_Cons Cons
    using assms by (auto simp: date_lt_def split: option.splits)
qed

lemma upcoming_filter_steady:
  assumes "\<forall>k. clock k = t"
  shows "fst (upcoming_filter Date clock k xs) =
     filter (\<lambda>ob. o_status ob = Open \<and> (\<exists>d. Date (o_due_date ob) = Some d \<and> t \<le> d)) xs"
proof (induction xs arbitrary: k)
  case Nil
  show ?case by simp
next
  case (Cons x xs)
  show ?case
    unfolding fst_upcoming_filter_Cons Cons
    using assms by (auto simp: date_ge_def split: option.splits)
qed

lemma subseteq_add_mset_right: "A \<subseteq># B \<Longrightarrow> A \<subseteq># add_mset x B"
  by (simp add: subseteq_mset_def le_SucI)

lemma overdue_filter_between:
  assumes "\<forall>k. lo \<le> clock k \<and> clock k \<le> hi"
  shows "filter_mset (\<lambda>ob. o_status ob = Open \<and> (\<exists>d. Date (o_due_date ob) = Some d \<and> d < lo))
           (mset xs) \<subseteq># mset (fst (overdue_filter Date clock k xs))
       \<and> mset (fst (overdue_filter Date clock k xs)) \<subseteq>#
         filter_mset (\<lambda>ob. o_status ob = Open \<and> (\<exists>d. Date (o_due_date ob) = Some d \<and> d < hi))
           (mset xs)"
proof (induction xs arbitrary: k)
  case Nil
  show ?case by simp
next
  case (Cons x xs)
  have lo: "lo \<le> clock k" and hi: "clock k \<le> hi" using assms by auto
  note ih1 = Cons [of "Suc k", THEN conjunct1] and ih2 = Cons [of "Suc k", THEN conjunct2]
    and ih1' = Cons [of k, THEN conjunct1] and ih2' = Cons [of k, THEN conjunct2]
  show ?case
    unfolding fst_overdue_filter_Cons
    using lo hi ih1 ih2 ih1' ih2'
    by (auto simp: date_lt_def intro: subseteq_add_mset_right split: option.splits)
qed

lemma upcoming_filter_between:
  assumes "\<forall>k. lo \<le> clock k \<and> clock k \<le> hi"
  shows "filter_mset (\<lambda>ob. o_status ob = Open \<and> (\<exists>d. Date (o_due_date ob) = Some d \<and> hi \<le> d))
           (mset xs) \<subseteq># mset (fst (upcoming_filter Date clock k xs))
       \<and> mset (fst (upcoming_filter Date clock k xs)) \<subseteq>#
         filter_mset (\<lambda>ob. o_status ob = Open \<and> (\<exists>d. Date (o_due_date ob) = Some d \<and> lo \<le> d))
           (mset xs)"
proof (induction xs arbitrary: k)
  case Nil
  show ?case by simp
next
  case (Cons x xs)
  have lo: "lo \<le> clock k" and hi: "clock k \<le> hi" using assms by auto
  note ih1 = Cons [of "Suc k", THEN conjunct1] and ih2 = Cons [of "Suc k", THEN conjunct2]
    and ih1' = Cons [of k, THEN conjunct1] and ih2' = Cons [of k, THEN conjunct2]
  show ?case
    unfolding fst_upcoming_filter_Cons
    using lo hi ih1 ih2 ih1' ih2'
    by (auto simp: date_ge_def intro: subseteq_add_mset_right split: option.splits)
qed

text \<open>
  C4, as amended. For every list of obligations that \<open>filtered\<close> may hold, every engine
  and every clock. When the clock reads the same time at every reading of the rendering,
  the section of the overdue lists exactly the open obligations due before that time and
  the section of the upcoming exactly the open ones due at that time or later, each as
  often as the list has it. When the readings lie between two times, an open obligation
  due before the earlier is listed as overdue and one due at the later or after it as
  upcoming; what is listed as overdue is open and due before the later, what is listed as
  upcoming is open and due at the earlier or after it. The section of the done lists
  exactly the done ones, as the sort only permutes its array. The sections of the overdue
  and of the upcoming are in ascending order of due time, and so is the section of the
  done when the due dates of the done obligations are valid dates.
\<close>

theorem obligation_buckets:
  "((\<forall>k. clock k = t) \<longrightarrow>
       mset (Section Date engine (overdue Date clock fs)) =
         filter_mset (\<lambda>ob. o_status ob = Open \<and> (\<exists>d. Date (o_due_date ob) = Some d \<and> d < t))
           (mset fs)
     \<and> mset (Section Date engine (upcoming Date clock fs)) =
         filter_mset (\<lambda>ob. o_status ob = Open \<and> (\<exists>d. Date (o_due_date ob) = Some d \<and> t \<le> d))
           (mset fs))
   \<and> ((\<forall>k. lo \<le> clock k \<and> clock k \<le> hi) \<longrightarrow>
       filter_mset (\<lambda>ob. o_status ob = Open \<and> (\<exists>d. Date (o_due_date ob) = Some d \<and> d < lo))
         (mset fs) \<subseteq># mset (Section Date engine (overdue Date clock fs))
     \<and> mset (Section Date engine (overdue Date clock fs)) \<subseteq>#
         filter_mset (\<lambda>ob. o_status ob = Open \<and> (\<exists>d. Date (o_due_date ob) = Some d \<and> d < hi))
           (mset fs)
     \<and> filter_mset (\<lambda>ob. o_status ob = Open \<and> (\<exists>d. Date (o_due_date ob) = Some d \<and> hi \<le> d))
         (mset fs) \<subseteq># mset (Section Date engine (upcoming Date clock fs))
     \<and> mset (Section Date engine (upcoming Date clock fs)) \<subseteq>#
         filter_mset (\<lambda>ob. o_status ob = Open \<and> (\<exists>d. Date (o_due_date ob) = Some d \<and> lo \<le> d))
           (mset fs))
   \<and> ((\<forall>cmp xs. mset (engine cmp xs) = mset xs) \<longrightarrow>
       mset (Section Date engine (done_bucket fs)) =
         filter_mset (\<lambda>ob. o_status ob = Done) (mset fs))
   \<and> spec_ascending Date (Section Date engine (overdue Date clock fs))
   \<and> spec_ascending Date (Section Date engine (upcoming Date clock fs))
   \<and> ((\<forall>ob\<in>set fs. o_status ob = Done \<longrightarrow> Date (o_due_date ob) \<noteq> None) \<longrightarrow>
       mset (Section Date engine (done_bucket fs)) =
         filter_mset (\<lambda>ob. o_status ob = Done) (mset fs)
     \<and> spec_ascending Date (Section Date engine (done_bucket fs)))"
proof -
  have vo: "\<forall>ob\<in>set (overdue Date clock fs). Date (o_due_date ob) \<noteq> None"
    using overdue_filter_valid by (auto simp: overdue_def)
  have vu: "\<forall>ob\<in>set (upcoming Date clock fs). Date (o_due_date ob) \<noteq> None"
    using upcoming_filter_valid by (auto simp: upcoming_def)
  have a: "(\<forall>k. clock k = t) \<longrightarrow>
       mset (Section Date engine (overdue Date clock fs)) =
         filter_mset (\<lambda>ob. o_status ob = Open \<and> (\<exists>d. Date (o_due_date ob) = Some d \<and> d < t))
           (mset fs)
     \<and> mset (Section Date engine (upcoming Date clock fs)) =
         filter_mset (\<lambda>ob. o_status ob = Open \<and> (\<exists>d. Date (o_due_date ob) = Some d \<and> t \<le> d))
           (mset fs)"
  proof
    assume steady: "\<forall>k. clock k = t"
    have 1: "mset (Section Date engine (overdue Date clock fs)) = mset (overdue Date clock fs)"
      by (rule mset_Section_valid [OF vo])
    have 2: "mset (Section Date engine (upcoming Date clock fs)) = mset (upcoming Date clock fs)"
      by (rule mset_Section_valid [OF vu])
    show "mset (Section Date engine (overdue Date clock fs)) =
         filter_mset (\<lambda>ob. o_status ob = Open \<and> (\<exists>d. Date (o_due_date ob) = Some d \<and> d < t))
           (mset fs)
     \<and> mset (Section Date engine (upcoming Date clock fs)) =
         filter_mset (\<lambda>ob. o_status ob = Open \<and> (\<exists>d. Date (o_due_date ob) = Some d \<and> t \<le> d))
           (mset fs)"
      unfolding 1 2
      by (simp add: overdue_def upcoming_def overdue_filter_steady [OF steady]
          upcoming_filter_steady [OF steady])
  qed
  have a': "(\<forall>k. lo \<le> clock k \<and> clock k \<le> hi) \<longrightarrow>
       filter_mset (\<lambda>ob. o_status ob = Open \<and> (\<exists>d. Date (o_due_date ob) = Some d \<and> d < lo))
         (mset fs) \<subseteq># mset (Section Date engine (overdue Date clock fs))
     \<and> mset (Section Date engine (overdue Date clock fs)) \<subseteq>#
         filter_mset (\<lambda>ob. o_status ob = Open \<and> (\<exists>d. Date (o_due_date ob) = Some d \<and> d < hi))
           (mset fs)
     \<and> filter_mset (\<lambda>ob. o_status ob = Open \<and> (\<exists>d. Date (o_due_date ob) = Some d \<and> hi \<le> d))
         (mset fs) \<subseteq># mset (Section Date engine (upcoming Date clock fs))
     \<and> mset (Section Date engine (upcoming Date clock fs)) \<subseteq>#
         filter_mset (\<lambda>ob. o_status ob = Open \<and> (\<exists>d. Date (o_due_date ob) = Some d \<and> lo \<le> d))
           (mset fs)"
  proof
    assume bounds: "\<forall>k. lo \<le> clock k \<and> clock k \<le> hi"
    have 1: "mset (Section Date engine (overdue Date clock fs)) = mset (overdue Date clock fs)"
      by (rule mset_Section_valid [OF vo])
    have 2: "mset (Section Date engine (upcoming Date clock fs)) = mset (upcoming Date clock fs)"
      by (rule mset_Section_valid [OF vu])
    show "filter_mset (\<lambda>ob. o_status ob = Open \<and> (\<exists>d. Date (o_due_date ob) = Some d \<and> d < lo))
       (mset fs) \<subseteq># mset (Section Date engine (overdue Date clock fs))
   \<and> mset (Section Date engine (overdue Date clock fs)) \<subseteq>#
       filter_mset (\<lambda>ob. o_status ob = Open \<and> (\<exists>d. Date (o_due_date ob) = Some d \<and> d < hi))
         (mset fs)
   \<and> filter_mset (\<lambda>ob. o_status ob = Open \<and> (\<exists>d. Date (o_due_date ob) = Some d \<and> hi \<le> d))
       (mset fs) \<subseteq># mset (Section Date engine (upcoming Date clock fs))
   \<and> mset (Section Date engine (upcoming Date clock fs)) \<subseteq>#
       filter_mset (\<lambda>ob. o_status ob = Open \<and> (\<exists>d. Date (o_due_date ob) = Some d \<and> lo \<le> d))
         (mset fs)"
      unfolding 1 2 unfolding overdue_def upcoming_def
      by (intro conjI overdue_filter_between [OF bounds, THEN conjunct1]
          overdue_filter_between [OF bounds, THEN conjunct2]
          upcoming_filter_between [OF bounds, THEN conjunct1]
          upcoming_filter_between [OF bounds, THEN conjunct2])
  qed
  have b: "(\<forall>cmp xs. mset (engine cmp xs) = mset xs) \<longrightarrow>
       mset (Section Date engine (done_bucket fs)) =
         filter_mset (\<lambda>ob. o_status ob = Done) (mset fs)"
    by (simp add: mset_Section_engine done_bucket_def)
  have c: "spec_ascending Date (Section Date engine (overdue Date clock fs))"
    by (rule ascending_Section [OF vo])
  have d: "spec_ascending Date (Section Date engine (upcoming Date clock fs))"
    by (rule ascending_Section [OF vu])
  have e: "(\<forall>ob\<in>set fs. o_status ob = Done \<longrightarrow> Date (o_due_date ob) \<noteq> None) \<longrightarrow>
       mset (Section Date engine (done_bucket fs)) =
         filter_mset (\<lambda>ob. o_status ob = Done) (mset fs)
     \<and> spec_ascending Date (Section Date engine (done_bucket fs))"
  proof
    assume "\<forall>ob\<in>set fs. o_status ob = Done \<longrightarrow> Date (o_due_date ob) \<noteq> None"
    then have v: "\<forall>ob\<in>set (done_bucket fs). Date (o_due_date ob) \<noteq> None"
      by (simp add: done_bucket_def)
    have "mset (Section Date engine (done_bucket fs)) = mset (done_bucket fs)"
      by (rule mset_Section_valid [OF v])
    then have "mset (Section Date engine (done_bucket fs)) =
         filter_mset (\<lambda>ob. o_status ob = Done) (mset fs)"
      by (simp add: done_bucket_def)
    moreover have "spec_ascending Date (Section Date engine (done_bucket fs))"
      by (rule ascending_Section [OF v])
    ultimately show "mset (Section Date engine (done_bucket fs)) =
         filter_mset (\<lambda>ob. o_status ob = Done) (mset fs)
     \<and> spec_ascending Date (Section Date engine (done_bucket fs))"
      by simp
  qed
  show ?thesis by (intro conjI a a' b c d e)
qed

text \<open>
  The claim as stated fails in two ways. Three done obligations, the second with a due
  date that is no date: the comparison function is not consistent, the engine that sorts
  by insertion leaves them as they are, the one due on the third of January before the
  one due on the first, and no order of the three is ascending in due time. And an open
  obligation due at the very time of the first reading of the clock, with a clock that has
  moved on by the second: it is not overdue at the first reading and not upcoming at the
  second, and is in neither list.
\<close>

theorem obligation_buckets_counterexample:
  "map o_id (Section (map_of [(''2024-01-01T09:00'', 1704099600000), (''2024-01-03T09:00'', 1704272400000)])
      engine_insertion
      (done_bucket
         [sample_obligation 1 ''2024-01-03T09:00'' Done, sample_obligation 2 ''soon'' Done,
          sample_obligation 3 ''2024-01-01T09:00'' Done]))
     = [1, 2, 3]
   \<and> \<not> spec_ascending (map_of [(''2024-01-01T09:00'', 1704099600000), (''2024-01-03T09:00'', 1704272400000)])
      (Section (map_of [(''2024-01-01T09:00'', 1704099600000), (''2024-01-03T09:00'', 1704272400000)])
        engine_insertion
        (done_bucket
           [sample_obligation 1 ''2024-01-03T09:00'' Done, sample_obligation 2 ''soon'' Done,
            sample_obligation 3 ''2024-01-01T09:00'' Done]))
   \<and> overdue (map_of [(''2024-01-01T09:00'', 1704099600000), (''2024-01-03T09:00'', 1704272400000)])
        (\<lambda>k. 1704099600000 + int k) [sample_obligation 1 ''2024-01-01T09:00'' Open] = []
   \<and> upcoming (map_of [(''2024-01-01T09:00'', 1704099600000), (''2024-01-03T09:00'', 1704272400000)])
        (\<lambda>k. 1704099600000 + int k) [sample_obligation 1 ''2024-01-01T09:00'' Open] = []"
proof -
  let ?Date = "map_of [(''2024-01-01T09:00'', 1704099600000 :: int), (''2024-01-03T09:00'', 1704272400000)]"
  let ?fs = "[sample_obligation 1 ''2024-01-03T09:00'' Done, sample_obligation 2 ''soon'' Done,
          sample_obligation 3 ''2024-01-01T09:00'' Done]"
  have inc: "\<not> consistent (by_due ?Date) ?fs"
    by (simp add: consistent_by_due sample_obligation_def)
  have s: "Section ?Date engine_insertion (done_bucket ?fs) = ?fs"
    using inc
    by (simp add: Section_def array_sort_def done_bucket_def engine_insertion_def stable_sort_def
        by_due_def sample_obligation_def)
  have 1: "map o_id (Section ?Date engine_insertion (done_bucket ?fs)) = [1, 2, 3]"
    unfolding s by (simp add: sample_obligation_def)
  have 2: "\<not> spec_ascending ?Date (Section ?Date engine_insertion (done_bucket ?fs))"
    unfolding s by (simp add: spec_ascending_def sample_obligation_def)
  have 3: "overdue ?Date (\<lambda>k. 1704099600000 + int k) [sample_obligation 1 ''2024-01-01T09:00'' Open] = []"
    by (simp add: overdue_def date_lt_def sample_obligation_def)
  have 4: "upcoming ?Date (\<lambda>k. 1704099600000 + int k) [sample_obligation 1 ''2024-01-01T09:00'' Open] = []"
    by (simp add: upcoming_def date_ge_def sample_obligation_def)
  show ?thesis by (intro conjI 1 2 3 4)
qed

text \<open>Scenario B, with the time values of the two dates in milliseconds and a clock that
  reads one time after both: the overdue section lists 1, then 2. Two done obligations
  given in the other order are listed 1, then 2 as well; a done obligation without a
  date stays in its section; and with a clock that moves on by nine milliseconds during
  the rendering the two open obligations are still listed as overdue.\<close>

theorem buckets_scenario_B_witness:
  "map o_id (Section (map_of [(''2024-01-01T09:00'', 1704099600000), (''2024-01-02T09:00'', 1704186000000)])
      engine_insertion
      (overdue (map_of [(''2024-01-01T09:00'', 1704099600000), (''2024-01-02T09:00'', 1704186000000)])
         (\<lambda>k. 1704200000000)
         [sample_obligation 1 ''2024-01-01T09:00'' Open, sample_obligation 2 ''2024-01-02T09:00'' Open]))
     = [1, 2]
   \<and> mset (Section (map_of [(''2024-01-01T09:00'', 1704099600000), (''2024-01-02T09:00'', 1704186000000)])
      engine_insertion
      (overdue (map_of [(''2024-01-01T09:00'', 1704099600000), (''2024-01-02T09:00'', 1704186000000)])
         (\<lambda>k. 1704200000000)
         [sample_obligation 1 ''2024-01-01T09:00'' Open, sample_obligation 2 ''2024-01-02T09:00'' Open]))
     = mset [sample_obligation 1 ''2024-01-01T09:00'' Open, sample_obligation 2 ''2024-01-02T09:00'' Open]
   \<and> mset (Section (map_of [(''2024-01-01T09:00'', 1704099600000), (''2024-01-02T09:00'', 1704186000000)])
      engine_insertion
      (upcoming (map_of [(''2024-01-01T09:00'', 1704099600000), (''2024-01-02T09:00'', 1704186000000)])
         (\<lambda>k. 1704200000000)
         [sample_obligation 1 ''2024-01-01T09:00'' Open, sample_obligation 2 ''2024-01-02T09:00'' Open]))
     = {#}
   \<and> map o_id (Section (map_of [(''2024-01-01T09:00'', 1704099600000), (''2024-01-02T09:00'', 1704186000000)])
      engine_insertion
      (done_bucket
         [sample_obligation 2 ''2024-01-02T09:00'' Done, sample_obligation 1 ''2024-01-01T09:00'' Done,
          sample_obligation 3 ''2024-01-02T09:00'' Open]))
     = [1, 2]
   \<and> spec_ascending (map_of [(''2024-01-01T09:00'', 1704099600000), (''2024-01-02T09:00'', 1704186000000)])
      (Section (map_of [(''2024-01-01T09:00'', 1704099600000), (''2024-01-02T09:00'', 1704186000000)])
        engine_insertion
        (done_bucket
         [sample_obligation 2 ''2024-01-02T09:00'' Done, sample_obligation 1 ''2024-01-01T09:00'' Done,
          sample_obligation 3 ''2024-01-02T09:00'' Open]))
   \<and> mset (Section (map_of [(''2024-01-01T09:00'', 1704099600000), (''2024-01-02T09:00'', 1704186000000)])
      engine_insertion
      (done_bucket
         [sample_obligation 2 ''2024-01-02T09:00'' Done, sample_obligation 4 ''soon'' Done]))
     = mset [sample_obligation 2 ''2024-01-02T09:00'' Done, sample_obligation 4 ''soon'' Done]
   \<and> mset [sample_obligation 1 ''2024-01-01T09:00'' Open, sample_obligation 2 ''2024-01-02T09:00'' Open]
     \<subseteq># mset (Section (map_of [(''2024-01-01T09:00'', 1704099600000), (''2024-01-02T09:00'', 1704186000000)])
      engine_insertion
      (overdue (map_of [(''2024-01-01T09:00'', 1704099600000), (''2024-01-02T09:00'', 1704186000000)])
         (\<lambda>k. 1704200000000 + int (min k 9))
         [sample_obligation 1 ''2024-01-01T09:00'' Open, sample_obligation 2 ''2024-01-02T09:00'' Open]))"
proof -
  let ?Date = "map_of [(''2024-01-01T09:00'', 1704099600000 :: int), (''2024-01-02T09:00'', 1704186000000)]"
  let ?clock = "\<lambda>k :: nat. 1704200000000 :: int"
  let ?open = "[sample_obligation 1 ''2024-01-01T09:00'' Open, sample_obligation 2 ''2024-01-02T09:00'' Open]"
  let ?fs = "[sample_obligation 2 ''2024-01-02T09:00'' Done, sample_obligation 1 ''2024-01-01T09:00'' Done,
          sample_obligation 3 ''2024-01-02T09:00'' Open]"
  let ?und = "[sample_obligation 2 ''2024-01-02T09:00'' Done, sample_obligation 4 ''soon'' Done]"
  note B = obligation_buckets
    [where Date = ?Date and engine = engine_insertion and clock = ?clock and t = 1704200000000
       and fs = ?open]
  note D = obligation_buckets
    [where Date = ?Date and engine = engine_insertion and clock = ?clock and t = 1704200000000
       and fs = ?fs]
  note E = obligation_buckets
    [where Date = ?Date and engine = engine_insertion and clock = ?clock and t = 1704200000000
       and fs = ?und]
  let ?adv = "\<lambda>k :: nat. 1704200000000 + int (min k 9)"
  note A = obligation_buckets
    [where Date = ?Date and engine = engine_insertion and clock = ?adv and lo = 1704200000000
       and hi = 1704200000009 and fs = ?open]
  have bounds: "\<forall>k. 1704200000000 \<le> ?adv k \<and> ?adv k \<le> 1704200000009" by simp
  have steady: "\<forall>k. ?clock k = 1704200000000" by simp
  have perm: "\<forall>cmp xs. mset (engine_insertion cmp xs :: obligation list) = mset xs"
    by (simp add: engine_insertion_def mset_stable_sort)
  have v: "\<forall>ob\<in>set ?fs. o_status ob = Done \<longrightarrow> ?Date (o_due_date ob) \<noteq> None"
    by (simp add: sample_obligation_def)
  note b = B [THEN conjunct1, THEN mp, OF steady]
  have 1: "map o_id (Section ?Date engine_insertion (overdue ?Date ?clock ?open)) = [1, 2]"
    by (simp add: Section_def array_sort_def consistent_by_due stable_sort_def overdue_def
        date_lt_def by_due_def sample_obligation_def)
  have 2: "mset (Section ?Date engine_insertion (overdue ?Date ?clock ?open)) = mset ?open"
    using b [THEN conjunct1] by (simp add: sample_obligation_def)
  have 3: "mset (Section ?Date engine_insertion (upcoming ?Date ?clock ?open)) = {#}"
    using b [THEN conjunct2] by (simp add: sample_obligation_def)
  have 4: "map o_id (Section ?Date engine_insertion (done_bucket ?fs)) = [1, 2]"
    by (simp add: Section_def array_sort_def consistent_by_due stable_sort_def done_bucket_def
        by_due_def sample_obligation_def)
  have 5: "spec_ascending ?Date (Section ?Date engine_insertion (done_bucket ?fs))"
    using D [THEN conjunct2, THEN conjunct2, THEN conjunct2, THEN conjunct2, THEN conjunct2,
        THEN mp, OF v]
    by simp
  have 6: "mset (Section ?Date engine_insertion (done_bucket ?und)) = mset ?und"
    using E [THEN conjunct2, THEN conjunct2, THEN conjunct1, THEN mp, OF perm]
    by (simp add: sample_obligation_def)
  have 7: "mset ?open \<subseteq># mset (Section ?Date engine_insertion (overdue ?Date ?adv ?open))"
    using A [THEN conjunct2, THEN conjunct1, THEN mp, OF bounds, THEN conjunct1]
    by (simp add: sample_obligation_def)
  show ?thesis by (intro conjI 1 2 3 4 5 6 7)
qed

section \<open>Creation\<close>

text \<open>
  C5. \<open>quickAdd\<close> on each of the three pages, for a draft whose first prompt was
  answered with a non-empty text. Up to its \<^verbatim>\<open>await\<close> the handler leaves the page as
  it is and issues the create call. When the call resolves, the entity the server
  returned is put in front of the collection the page holds then, the others following in
  their order; when it rejects, the handler itself rejects with that error and changes
  nothing.
\<close>

theorem create_awaits_then_prepends:
  "fst (kanban_quickAdd_begin Number kst title valueStr) = kst
   \<and> (title = Some t \<and> t \<noteq> [] \<longrightarrow>
        (\<exists>p. snd (kanban_quickAdd_begin Number kst title valueStr) = Some (CreateDeal p)
             \<and> dc_title p = t \<and> dc_column p = Novo)
      \<and> kanban_quickAdd Number kst title valueStr (Resolved novo)
           = Inr (kst\<lparr>kb_items := novo # kb_items kst\<rparr>)
      \<and> kanban_quickAdd Number kst title valueStr (Rejected e) = Inl e)
   \<and> kanban_quickAdd_resume kst' (Resolved novo) = Inr (kst'\<lparr>kb_items := novo # kb_items kst'\<rparr>)
   \<and> kanban_quickAdd_resume kst' (Rejected e) = Inl e
   \<and> fst (contacts_quickAdd_begin nst name) = nst
   \<and> (name = Some n \<and> n \<noteq> [] \<longrightarrow>
        (\<exists>p. snd (contacts_quickAdd_begin nst name) = Some (CreateContact p) \<and> cc_name p = n)
      \<and> contacts_quickAdd nst name (Resolved newC) = Inr (nst\<lparr>con_rows := newC # con_rows nst\<rparr>)
      \<and> contacts_quickAdd nst name (Rejected e) = Inl e)
   \<and> contacts_quickAdd_resume nst' (Resolved newC) = Inr (nst'\<lparr>con_rows := newC # con_rows nst'\<rparr>)
   \<and> contacts_quickAdd_resume nst' (Rejected e) = Inl e
   \<and> fst (calendar_quickAdd_begin today cst otitle whenStr) = cst
   \<and> (otitle = Some u \<and> u \<noteq> [] \<longrightarrow>
        (\<exists>p. snd (calendar_quickAdd_begin today cst otitle whenStr) = Some (CreateObligation p)
             \<and> oc_title p = u)
      \<and> calendar_quickAdd today cst otitle whenStr (Resolved created)
           = Inr (cst\<lparr>cal_rows := created # cal_rows cst\<rparr>)
      \<and> calendar_quickAdd today cst otitle whenStr (Rejected e) = Inl e)
   \<and> calendar_quickAdd_resume cst' (Resolved created) = Inr (cst'\<lparr>cal_rows := created # cal_rows cst'\<rparr>)
   \<and> calendar_quickAdd_resume cst' (Rejected e) = Inl e"
proof -
  have k0: "fst (kanban_quickAdd_begin Number kst title valueStr) = kst"
    by (simp add: kanban_quickAdd_begin_def Let_def)
  have k1: "title = Some t \<and> t \<noteq> [] \<longrightarrow>
        (\<exists>p. snd (kanban_quickAdd_begin Number kst title valueStr) = Some (CreateDeal p)
             \<and> dc_title p = t \<and> dc_column p = Novo)
      \<and> kanban_quickAdd Number kst title valueStr (Resolved novo)
           = Inr (kst\<lparr>kb_items := novo # kb_items kst\<rparr>)
      \<and> kanban_quickAdd Number kst title valueStr (Rejected e) = Inl e"
    by (simp add: kanban_quickAdd_def kanban_quickAdd_begin_def kanban_quickAdd_resume_def
        or_empty_def Let_def)
  have k2: "kanban_quickAdd_resume kst' (Resolved novo) = Inr (kst'\<lparr>kb_items := novo # kb_items kst'\<rparr>)"
    "kanban_quickAdd_resume kst' (Rejected e) = Inl e"
    by (simp_all add: kanban_quickAdd_resume_def)
  have n0: "fst (contacts_quickAdd_begin nst name) = nst"
    by (simp add: contacts_quickAdd_begin_def)
  have n1: "name = Some n \<and> n \<noteq> [] \<longrightarrow>
        (\<exists>p. snd (contacts_quickAdd_begin nst name) = Some (CreateContact p) \<and> cc_name p = n)
      \<and> contacts_quickAdd nst name (Resolved newC) = Inr (nst\<lparr>con_rows := newC # con_rows nst\<rparr>)
      \<and> contacts_quickAdd nst name (Rejected e) = Inl e"
    by (simp add: contacts_quickAdd_def contacts_quickAdd_begin_def contacts_quickAdd_resume_def
        or_empty_def)
  have n2: "contacts_quickAdd_resume nst' (Resolved newC) = Inr (nst'\<lparr>con_rows := newC # con_rows nst'\<rparr>)"
    "contacts_quickAdd_resume nst' (Rejected e) = Inl e"
    by (simp_all add: contacts_quickAdd_resume_def)
  have c0: "fst (calendar_quickAdd_begin today cst otitle whenStr) = cst"
    by (simp add: calendar_quickAdd_begin_def Let_def)
  have c1: "otitle = Some u \<and> u \<noteq> [] \<longrightarrow>
        (\<exists>p. snd (calendar_quickAdd_begin today cst otitle whenStr) = Some (CreateObligation p)
             \<and> oc_title p = u)
      \<and> calendar_quickAdd today cst otitle whenStr (Resolved created)
           = Inr (cst\<lparr>cal_rows := created # cal_rows cst\<rparr>)
      \<and> calendar_quickAdd today cst otitle whenStr (Rejected e) = Inl e"
    by (simp add: calendar_quickAdd_def calendar_quickAdd_begin_def calendar_quickAdd_resume_def
        or_empty_def Let_def)
  have c2: "calendar_quickAdd_resume cst' (Resolved created) = Inr (cst'\<lparr>cal_rows := created # cal_rows cst'\<rparr>)"
    "calendar_quickAdd_resume cst' (Rejected e) = Inl e"
    by (simp_all add: calendar_quickAdd_resume_def)
  from k0 k1 k2 n0 n1 n2 c0 c1 c2 show ?thesis by blast
qed

text \<open>Scenario C: the server answers with the identity 42, which then comes first.\<close>

theorem create_scenario_C_witness:
  "kanban_quickAdd (\<lambda>s. if s = ''0'' then Some 0 else None)
      (sample_kanban [sample_deal 1 Novo])
      (Some (js ''Novo neg'' @ [0xF3] @ js ''cio'')) (Some ''0'')
      (Resolved (sample_deal 42 Novo))
     = Inr (sample_kanban [sample_deal 42 Novo, sample_deal 1 Novo])
   \<and> d_id (hd [sample_deal 42 Novo, sample_deal 1 Novo]) = 42
   \<and> kanban_quickAdd (\<lambda>s. if s = ''0'' then Some 0 else None)
      (sample_kanban [sample_deal 1 Novo])
      (Some (js ''Novo neg'' @ [0xF3] @ js ''cio'')) (Some ''0'')
      (Rejected ''HTTP 500'')
     = Inl ''HTTP 500''
   \<and> contacts_quickAdd (sample_contacts [sample_contact 1 ''Ana'' True]) (Some (js ''Bia''))
      (Resolved (sample_contact 42 ''Bia'' True))
     = Inr (sample_contacts [sample_contact 42 ''Bia'' True, sample_contact 1 ''Ana'' True])
   \<and> calendar_quickAdd ''2024-01-01'' (sample_calendar []) (Some (js ''Pagar'')) None
      (Resolved (sample_obligation 42 ''2024-01-01T09:00:00'' Open))
     = Inr (sample_calendar [sample_obligation 42 ''2024-01-01T09:00:00'' Open])
   \<and> snd (calendar_quickAdd_begin ''2024-01-01'' (sample_calendar []) (Some (js ''Pagar'')) None)
     = Some (CreateObligation \<lparr>oc_title = js ''Pagar'', oc_description = None,
          oc_due_date = ''2024-01-01T09:00:00'', oc_status = Open, oc_contact_id = None\<rparr>)"
proof -
  let ?title = "js ''Novo neg'' @ [0xF3] @ js ''cio''"
  have t: "?title \<noteq> []" by simp
  have n: "js ''Bia'' \<noteq> []" "js ''Pagar'' \<noteq> []" by (simp_all add: js_def)
  note k = create_awaits_then_prepends
    [where title = "Some ?title" and t = "?title" and valueStr = "Some ''0''"
       and Number = "\<lambda>s. if s = ''0'' then Some 0 else None"
       and kst = "sample_kanban [sample_deal 1 Novo]" and novo = "sample_deal 42 Novo"
       and e = "''HTTP 500''"
       and nst = "sample_contacts [sample_contact 1 ''Ana'' True]" and name = "Some (js ''Bia'')"
       and n = "js ''Bia''" and newC = "sample_contact 42 ''Bia'' True"
       and today = "''2024-01-01''" and cst = "sample_calendar []" and otitle = "Some (js ''Pagar'')"
       and u = "js ''Pagar''" and whenStr = None
       and created = "sample_obligation 42 ''2024-01-01T09:00:00'' Open"]
  have b: "snd (calendar_quickAdd_begin ''2024-01-01'' (sample_calendar []) (Some (js ''Pagar'')) None)
     = Some (CreateObligation \<lparr>oc_title = js ''Pagar'', oc_description = None,
          oc_due_date = ''2024-01-01T09:00:00'', oc_status = Open, oc_contact_id = None\<rparr>)"
    using n by (simp add: calendar_quickAdd_begin_def or_empty_def)
  show ?thesis
    using k t n b
    by (simp add: sample_kanban_def sample_contacts_def sample_calendar_def sample_deal_def)
qed

section \<open>The frame of the optimistic updates\<close>

lemma distinct_key_index:
  assumes "distinct (map key xs)" and "j < length xs" and "k < length xs"
    and "key (xs ! j) = key (xs ! k)"
  shows "j = k"
proof -
  show ?thesis
    using nth_eq_iff_index_eq [of "map key xs" j k] assms by simp
qed

lemma patch_frame:
  assumes ys: "ys = map (\<lambda>x. if key x = i then u x else x) xs"
    and key: "\<And>x. key (u x) = key x"
  shows "map key ys = map key xs"
    and "\<forall>k<length xs. key (xs ! k) \<noteq> i \<longrightarrow> ys ! k = xs ! k"
    and "\<forall>k<length xs. key (xs ! k) = i \<longrightarrow> ys ! k = u (xs ! k)"
    and "distinct (map key xs) \<longrightarrow>
           (\<forall>j<length xs. \<forall>k<length xs. ys ! j \<noteq> xs ! j \<and> ys ! k \<noteq> xs ! k \<longrightarrow> j = k)"
proof -
  show "map key ys = map key xs" by (simp add: ys key)
  show a: "\<forall>k<length xs. key (xs ! k) \<noteq> i \<longrightarrow> ys ! k = xs ! k" by (simp add: ys)
  show "\<forall>k<length xs. key (xs ! k) = i \<longrightarrow> ys ! k = u (xs ! k)" by (simp add: ys)
  show "distinct (map key xs) \<longrightarrow>
           (\<forall>j<length xs. \<forall>k<length xs. ys ! j \<noteq> xs ! j \<and> ys ! k \<noteq> xs ! k \<longrightarrow> j = k)"
  proof (intro impI allI)
    fix j k
    assume d: "distinct (map key xs)" and j: "j < length xs" and k: "k < length xs"
      and ne: "ys ! j \<noteq> xs ! j \<and> ys ! k \<noteq> xs ! k"
    from a j k ne have "key (xs ! j) = i" "key (xs ! k) = i" by auto
    then have "key (xs ! j) = key (xs ! k)" by simp
    with d j k show "j = k" by (rule distinct_key_index)
  qed
qed

text \<open>
  C6. The optimistic step of \<open>move\<close>, \<open>toggleDone\<close> and \<open>toggleReal\<close>, on the page as
  the handler finds it. The identities of the collection stay as they are, in their
  order (so its length stays too); an entity with another identity is unchanged; every
  entity is the one it was up to the designated field; an entity with the given identity
  gets the new value of that field; and in a collection of pairwise distinct identities
  at most one position changes.
\<close>

theorem optimistic_patch_frame:
  "map d_id (kb_items (fst (move_begin kst d to))) = map d_id (kb_items kst)
   \<and> (\<forall>k<length (kb_items kst). d_id (kb_items kst ! k) \<noteq> d_id d \<longrightarrow>
         kb_items (fst (move_begin kst d to)) ! k = kb_items kst ! k)
   \<and> (\<forall>k<length (kb_items kst).
         kb_items (fst (move_begin kst d to)) ! k =
           (kb_items kst ! k)\<lparr>d_column := d_column (kb_items (fst (move_begin kst d to)) ! k)\<rparr>)
   \<and> (\<forall>k<length (kb_items kst). d_id (kb_items kst ! k) = d_id d \<and> d_column d \<noteq> to \<longrightarrow>
         kb_items (fst (move_begin kst d to)) ! k = (kb_items kst ! k)\<lparr>d_column := to\<rparr>)
   \<and> (distinct (map d_id (kb_items kst)) \<longrightarrow>
         (\<forall>j<length (kb_items kst). \<forall>k<length (kb_items kst).
            kb_items (fst (move_begin kst d to)) ! j \<noteq> kb_items kst ! j
            \<and> kb_items (fst (move_begin kst d to)) ! k \<noteq> kb_items kst ! k \<longrightarrow> j = k))
   \<and> map o_id (cal_rows (fst (toggleDone_begin cst ob))) = map o_id (cal_rows cst)
   \<and> (\<forall>k<length (cal_rows cst). o_id (cal_rows cst ! k) \<noteq> o_id ob \<longrightarrow>
         cal_rows (fst (toggleDone_begin cst ob)) ! k = cal_rows cst ! k)
   \<and> (\<forall>k<length (cal_rows cst).
         cal_rows (fst (toggleDone_begin cst ob)) ! k =
           (cal_rows cst ! k)\<lparr>o_status := o_status (cal_rows (fst (toggleDone_begin cst ob)) ! k)\<rparr>)
   \<and> (\<forall>k<length (cal_rows cst). o_id (cal_rows cst ! k) = o_id ob \<longrightarrow>
         cal_rows (fst (toggleDone_begin cst ob)) ! k =
           (cal_rows cst ! k)\<lparr>o_status := (if o_status ob = Done then Open else Done)\<rparr>)
   \<and> (distinct (map o_id (cal_rows cst)) \<longrightarrow>
         (\<forall>j<length (cal_rows cst). \<forall>k<length (cal_rows cst).
            cal_rows (fst (toggleDone_begin cst ob)) ! j \<noteq> cal_rows cst ! j
            \<and> cal_rows (fst (toggleDone_begin cst ob)) ! k \<noteq> cal_rows cst ! k \<longrightarrow> j = k))
   \<and> map c_id (con_rows (fst (toggleReal_begin nst i current))) = map c_id (con_rows nst)
   \<and> (\<forall>k<length (con_rows nst). c_id (con_rows nst ! k) \<noteq> i \<longrightarrow>
         con_rows (fst (toggleReal_begin nst i current)) ! k = con_rows nst ! k)
   \<and> (\<forall>k<length (con_rows nst).
         con_rows (fst (toggleReal_begin nst i current)) ! k =
           (con_rows nst ! k)\<lparr>c_is_real := c_is_real (con_rows (fst (toggleReal_begin nst i current)) ! k)\<rparr>)
   \<and> (\<forall>k<length (con_rows nst). c_id (con_rows nst ! k) = i \<longrightarrow>
         con_rows (fst (toggleReal_begin nst i current)) ! k =
           (con_rows nst ! k)\<lparr>c_is_real := \<not> current\<rparr>)
   \<and> (distinct (map c_id (con_rows nst)) \<longrightarrow>
         (\<forall>j<length (con_rows nst). \<forall>k<length (con_rows nst).
            con_rows (fst (toggleReal_begin nst i current)) ! j \<noteq> con_rows nst ! j
            \<and> con_rows (fst (toggleReal_begin nst i current)) ! k \<noteq> con_rows nst ! k \<longrightarrow> j = k))"
proof -
  define dys where "dys = kb_items (fst (move_begin kst d to))"
  define oys where "oys = cal_rows (fst (toggleDone_begin cst ob))"
  define cys where "cys = con_rows (fst (toggleReal_begin nst i current))"
  have dys: "dys = map (\<lambda>x. if d_id x = d_id d then (if d_column d = to then x else x\<lparr>d_column := to\<rparr>) else x)
      (kb_items kst)"
    by (cases "d_column d = to") (simp_all add: dys_def move_begin_def Let_def cong: if_cong)
  have oys: "oys = map (\<lambda>x. if o_id x = o_id ob
      then x\<lparr>o_status := (if o_status ob = Done then Open else Done)\<rparr> else x) (cal_rows cst)"
    by (simp add: oys_def toggleDone_begin_def Let_def)
  have cys: "cys = map (\<lambda>x. if c_id x = i then x\<lparr>c_is_real := \<not> current\<rparr> else x) (con_rows nst)"
    by (simp add: cys_def toggleReal_begin_def Let_def)
  note D = patch_frame [where key = d_id, OF dys]
  note O = patch_frame [where key = o_id, OF oys]
  note C = patch_frame [where key = c_id, OF cys]
  have d3: "\<forall>k<length (kb_items kst). dys ! k = (kb_items kst ! k)\<lparr>d_column := d_column (dys ! k)\<rparr>"
    by (simp add: dys)
  have d4: "\<forall>k<length (kb_items kst). d_id (kb_items kst ! k) = d_id d \<and> d_column d \<noteq> to \<longrightarrow>
         dys ! k = (kb_items kst ! k)\<lparr>d_column := to\<rparr>"
    by (simp add: dys)
  have o3: "\<forall>k<length (cal_rows cst). oys ! k = (cal_rows cst ! k)\<lparr>o_status := o_status (oys ! k)\<rparr>"
    by (simp add: oys)
  have c3: "\<forall>k<length (con_rows nst). cys ! k = (con_rows nst ! k)\<lparr>c_is_real := c_is_real (cys ! k)\<rparr>"
    by (simp add: cys)
  show ?thesis
    unfolding dys_def [symmetric] oys_def [symmetric] cys_def [symmetric]
    using D(1,2,4) d3 d4 O(1,2,3,4) o3 C(1,2,3,4) c3
    by (intro conjI) simp_all
qed

text \<open>Two entities with the identities 1 and 2 on each page, and one of them patched.\<close>

theorem optimistic_patch_witness:
  "kb_items (fst (move_begin (sample_kanban [sample_deal 1 Novo, sample_deal 2 Proposta])
       (sample_deal 1 Novo) Ganho)) ! 0 = sample_deal 1 Ganho
   \<and> kb_items (fst (move_begin (sample_kanban [sample_deal 1 Novo, sample_deal 2 Proposta])
       (sample_deal 1 Novo) Ganho)) ! 1 = sample_deal 2 Proposta
   \<and> cal_rows (fst (toggleDone_begin
       (sample_calendar [sample_obligation 1 ''2024-01-01T09:00'' Open,
                         sample_obligation 2 ''2024-01-02T09:00'' Open])
       (sample_obligation 2 ''2024-01-02T09:00'' Open))) ! 0
       = sample_obligation 1 ''2024-01-01T09:00'' Open
   \<and> cal_rows (fst (toggleDone_begin
       (sample_calendar [sample_obligation 1 ''2024-01-01T09:00'' Open,
                         sample_obligation 2 ''2024-01-02T09:00'' Open])
       (sample_obligation 2 ''2024-01-02T09:00'' Open))) ! 1
       = sample_obligation 2 ''2024-01-02T09:00'' Done
   \<and> con_rows (fst (toggleReal_begin
       (sample_contacts [sample_contact 1 ''Ana'' True, sample_contact 2 ''Bia'' False]) 1 True)) ! 0
       = sample_contact 1 ''Ana'' False
   \<and> con_rows (fst (toggleReal_begin
       (sample_contacts [sample_contact 1 ''Ana'' True, sample_contact 2 ''Bia'' False]) 1 True)) ! 1
       = sample_contact 2 ''Bia'' False
   \<and> distinct (map d_id (kb_items (sample_kanban [sample_deal 1 Novo, sample_deal 2 Proposta])))
   \<and> distinct (map o_id (cal_rows
       (sample_calendar [sample_obligation 1 ''2024-01-01T09:00'' Open,
                         sample_obligation 2 ''2024-01-02T09:00'' Open])))
   \<and> distinct (map c_id (con_rows
       (sample_contacts [sample_contact 1 ''Ana'' True, sample_contact 2 ''Bia'' False])))"
proof -
  let ?kst = "sample_kanban [sample_deal 1 Novo, sample_deal 2 Proposta]"
  let ?cst = "sample_calendar [sample_obligation 1 ''2024-01-01T09:00'' Open,
                         sample_obligation 2 ''2024-01-02T09:00'' Open]"
  let ?nst = "sample_contacts [sample_contact 1 ''Ana'' True, sample_contact 2 ''Bia'' False]"
  note T = optimistic_patch_frame
    [where kst = ?kst and d = "sample_deal 1 Novo" and to = Ganho
       and cst = ?cst and ob = "sample_obligation 2 ''2024-01-02T09:00'' Open"
       and nst = ?nst and i = 1 and current = True]
  have d: "distinct (map d_id (kb_items ?kst))" "distinct (map o_id (cal_rows ?cst))"
    "distinct (map c_id (con_rows ?nst))"
    by (simp_all add: sample_kanban_def sample_calendar_def sample_contacts_def
        sample_deal_def sample_obligation_def sample_contact_def)
  have k0: "\<forall>j<length (kb_items ?kst). d_id (kb_items ?kst ! j) = d_id (sample_deal 1 Novo)
         \<and> d_column (sample_deal 1 Novo) \<noteq> Ganho \<longrightarrow>
         kb_items (fst (move_begin ?kst (sample_deal 1 Novo) Ganho)) ! j = (kb_items ?kst ! j)\<lparr>d_column := Ganho\<rparr>"
    by (rule T [THEN conjunct2, THEN conjunct2, THEN conjunct2, THEN conjunct1])
  have k1: "\<forall>j<length (kb_items ?kst). d_id (kb_items ?kst ! j) \<noteq> d_id (sample_deal 1 Novo) \<longrightarrow>
         kb_items (fst (move_begin ?kst (sample_deal 1 Novo) Ganho)) ! j = kb_items ?kst ! j"
    by (rule T [THEN conjunct2, THEN conjunct1])
  have o0: "\<forall>j<length (cal_rows ?cst). o_id (cal_rows ?cst ! j) \<noteq> o_id (sample_obligation 2 ''2024-01-02T09:00'' Open) \<longrightarrow>
         cal_rows (fst (toggleDone_begin ?cst (sample_obligation 2 ''2024-01-02T09:00'' Open))) ! j = cal_rows ?cst ! j"
    by (rule T [THEN conjunct2, THEN conjunct2, THEN conjunct2, THEN conjunct2, THEN conjunct2, THEN conjunct2, THEN conjunct1])
  have o1: "\<forall>j<length (cal_rows ?cst). o_id (cal_rows ?cst ! j) = o_id (sample_obligation 2 ''2024-01-02T09:00'' Open) \<longrightarrow>
         cal_rows (fst (toggleDone_begin ?cst (sample_obligation 2 ''2024-01-02T09:00'' Open))) ! j =
           (cal_rows ?cst ! j)\<lparr>o_status := (if o_status (sample_obligation 2 ''2024-01-02T09:00'' Open) = Done then Open else Done)\<rparr>"
    by (rule T [THEN conjunct2, THEN conjunct2, THEN conjunct2, THEN conjunct2, THEN conjunct2, THEN conjunct2, THEN conjunct2, THEN conjunct2, THEN conjunct1])
  have c0: "\<forall>j<length (con_rows ?nst). c_id (con_rows ?nst ! j) = 1 \<longrightarrow>
         con_rows (fst (toggleReal_begin ?nst 1 True)) ! j = (con_rows ?nst ! j)\<lparr>c_is_real := \<not> True\<rparr>"
    by (rule T [THEN conjunct2, THEN conjunct2, THEN conjunct2, THEN conjunct2, THEN conjunct2, THEN conjunct2, THEN conjunct2, THEN conjunct2, THEN conjunct2, THEN conjunct2, THEN conjunct2, THEN conjunct2, THEN conjunct2, THEN conjunct1])
  have c1: "\<forall>j<length (con_rows ?nst). c_id (con_rows ?nst ! j) \<noteq> 1 \<longrightarrow>
         con_rows (fst (toggleReal_begin ?nst 1 True)) ! j = con_rows ?nst ! j"
    by (rule T [THEN conjunct2, THEN conjunct2, THEN conjunct2, THEN conjunct2, THEN conjunct2, THEN conjunct2, THEN conjunct2, THEN conjunct2, THEN conjunct2, THEN conjunct2, THEN conjunct2, THEN conjunct1])
  have 1: "kb_items (fst (move_begin ?kst (sample_deal 1 Novo) Ganho)) ! 0 = sample_deal 1 Ganho"
    using k0 [rule_format, of 0] by (simp add: sample_kanban_def sample_deal_def)
  have 2: "kb_items (fst (move_begin ?kst (sample_deal 1 Novo) Ganho)) ! 1 = sample_deal 2 Proposta"
    using k1 [rule_format, of 1] by (simp add: sample_kanban_def sample_deal_def)
  have 3: "cal_rows (fst (toggleDone_begin ?cst (sample_obligation 2 ''2024-01-02T09:00'' Open))) ! 0
       = sample_obligation 1 ''2024-01-01T09:00'' Open"
    using o0 [rule_format, of 0] by (simp add: sample_calendar_def sample_obligation_def)
  have 4: "cal_rows (fst (toggleDone_begin ?cst (sample_obligation 2 ''2024-01-02T09:00'' Open))) ! 1
       = sample_obligation 2 ''2024-01-02T09:00'' Done"
    using o1 [rule_format, of 1] by (simp add: sample_calendar_def sample_obligation_def)
  have 5: "con_rows (fst (toggleReal_begin ?nst 1 True)) ! 0 = sample_contact 1 ''Ana'' False"
    using c0 [rule_format, of 0] by (simp add: sample_contacts_def sample_contact_def)
  have 6: "con_rows (fst (toggleReal_begin ?nst 1 True)) ! 1 = sample_contact 2 ''Bia'' False"
    using c1 [rule_format, of 1] by (simp add: sample_contacts_def sample_contact_def)
  show ?thesis by (intro conjI 1 2 3 4 5 6 d)
qed

section \<open>The results of the HTTP helper\<close>

lemma decimal_show_nat: "spec_decimal_value (show_nat n) = n"
proof (induction n rule: show_nat.induct)
  case (1 n)
  show ?case
  proof (cases "n < 10")
    case True
    then show ?thesis
      by (subst show_nat.simps) (simp add: spec_decimal_value_def)
  next
    case False
    then have ih: "spec_decimal_value (show_nat (n div 10)) = n div 10"
      using 1 by simp
    have "n mod 10 < 10" by simp
    then have "(48 + n mod 10) mod 256 = 48 + n mod 10" by simp
    then have "spec_decimal_value (show_nat n) = 10 * (n div 10) + n mod 10"
      using False ih by (subst show_nat.simps) (simp add: spec_decimal_value_def)
    then show ?thesis by simp
  qed
qed

text \<open>
  C7, as amended. For a response outside the range 200-299 the helper rejects and never
  resolves: with the text of the body when there is one and it is not empty, and with
  \<open>HTTP\<close> followed by the decimal digits of the status when the body is empty or cannot
  be read. For a response in that range it resolves with the parsed body when the body
  parses as JSON, and rejects with the error of the parser when it does not.
\<close>

theorem http_settles:
  "(fetch (http_request e path ini qry) = Response r \<and> \<not> res_ok r \<longrightarrow>
       (\<forall>v. http e fetch path ini qry \<noteq> Resolved v)
     \<and> (\<forall>t. res_text r = Some t \<and> t \<noteq> [] \<longrightarrow> http e fetch path ini qry = Rejected t)
     \<and> (res_text r = None \<or> res_text r = Some [] \<longrightarrow>
          http e fetch path ini qry = Rejected (''HTTP '' @ show_nat (res_status r)))
     \<and> spec_decimal_value (show_nat (res_status r)) = res_status r)
   \<and> (fetch (http_request e path ini qry) = Response r \<and> res_ok r \<longrightarrow>
       (\<forall>v. res_json r = Inr v \<longrightarrow> http e fetch path ini qry = Resolved v)
     \<and> (\<forall>m. res_json r = Inl m \<longrightarrow> http e fetch path ini qry = Rejected m))"
  by (auto simp: http_def http_settle_def decimal_show_nat Let_def split: sum.splits)

text \<open>The claim as stated fails for a response with status 200 and an empty body, as a
  server may send for a deletion: the helper rejects.\<close>

theorem http_rejects_2xx_counterexample:
  "res_ok \<lparr>res_status = 200, res_text = Some [], res_json = Inl ''Unexpected end of JSON input''\<rparr>
   \<and> http \<lparr>vite_api_base_url = None, token = Some ''t''\<rparr>
        (\<lambda>req. Response \<lparr>res_status = 200, res_text = Some [],
                          res_json = (Inl ''Unexpected end of JSON input'' :: string + unit)\<rparr>)
        ''/deals/7'' delete_init None
      = Rejected ''Unexpected end of JSON input''"
  by (simp add: http_def http_settle_def res_ok_def)

text \<open>A 404 with an empty body, a 500 with a body and a 201 with a JSON body.\<close>

theorem http_settles_witness:
  "http \<lparr>vite_api_base_url = None, token = None\<rparr>
        (\<lambda>req. Response \<lparr>res_status = 404, res_text = Some [], res_json = (Inl ''x'' :: string + unit)\<rparr>)
        ''/deals'' None None = Rejected ''HTTP 404''
   \<and> http \<lparr>vite_api_base_url = None, token = None\<rparr>
        (\<lambda>req. Response \<lparr>res_status = 500, res_text = Some ''boom'', res_json = (Inl ''x'' :: string + unit)\<rparr>)
        ''/deals'' None None = Rejected ''boom''
   \<and> http \<lparr>vite_api_base_url = None, token = None\<rparr>
        (\<lambda>req. Response \<lparr>res_status = 201, res_text = Some ''7'', res_json = (Inr 7 :: string + int)\<rparr>)
        ''/deals'' None None = Resolved 7"
proof -
  let ?e = "\<lparr>vite_api_base_url = None, token = None\<rparr>"
  let ?r1 = "\<lparr>res_status = 404, res_text = Some [], res_json = (Inl ''x'' :: string + unit)\<rparr>"
  let ?r2 = "\<lparr>res_status = 500, res_text = Some ''boom'', res_json = (Inl ''x'' :: string + unit)\<rparr>"
  let ?r3 = "\<lparr>res_status = 201, res_text = Some ''7'', res_json = (Inr 7 :: string + int)\<rparr>"
  have s: "show_nat 404 = ''404''" by code_simp
  have 1: "http ?e (\<lambda>req. Response ?r1) ''/deals'' None None = Rejected ''HTTP 404''"
    using http_settles [of "\<lambda>req. Response ?r1" ?e "''/deals''" None None ?r1]
    by (simp add: res_ok_def s)
  have 2: "http ?e (\<lambda>req. Response ?r2) ''/deals'' None None = Rejected ''boom''"
    using http_settles [of "\<lambda>req. Response ?r2" ?e "''/deals''" None None ?r2]
    by (simp add: res_ok_def)
  have 3: "http ?e (\<lambda>req. Response ?r3) ''/deals'' None None = Resolved 7"
    using http_settles [of "\<lambda>req. Response ?r3" ?e "''/deals''" None None ?r3]
    by (simp add: res_ok_def)
  from 1 2 3 show ?thesis by simp
qed

section \<open>Loading\<close>

lemma crm_run_failed:
  assumes "\<forall>r. fetch (crm_request env c) = Response r \<longrightarrow> \<not> res_ok r"
  shows "\<exists>m. crm_run env fetch c = Rejected m"
  using assms
  by (cases "fetch (crm_request env c)") (auto simp: crm_run_def http_settle_def Let_def)

lemma crm_run_ok:
  assumes "fetch (crm_request env c) = Response r" and "res_ok r" and "res_json r = Inr v"
  shows "crm_run env fetch c = Resolved v"
  using assms by (simp add: crm_run_def http_settle_def)

lemma kanban_refresh_rejected:
  "kb_items (kanban_refresh kst (Rejected e)) = kb_items kst
   \<and> \<not> kb_loading (kanban_refresh kst (Rejected e))
   \<and> (\<exists>m. kb_error (kanban_refresh kst (Rejected e)) = Some m \<and> m \<noteq> [])"
  by (simp add: kanban_refresh_def kanban_refresh_begin_def kanban_refresh_resume_def)

lemma kanban_refresh_resolved:
  "kb_items (kanban_refresh kst (Resolved ds)) = ds
   \<and> \<not> kb_loading (kanban_refresh kst (Resolved ds))"
  by (simp add: kanban_refresh_def kanban_refresh_begin_def kanban_refresh_resume_def)

lemma calendar_refresh_rejected:
  "cal_rows (calendar_refresh cst (Rejected e)) = cal_rows cst
   \<and> \<not> cal_loading (calendar_refresh cst (Rejected e))
   \<and> (\<exists>m. cal_error (calendar_refresh cst (Rejected e)) = Some m \<and> m \<noteq> [])"
  by (simp add: calendar_refresh_def calendar_refresh_begin_def calendar_refresh_resume_def)

lemma calendar_refresh_resolved:
  "cal_rows (calendar_refresh cst (Resolved os)) = os
   \<and> \<not> cal_loading (calendar_refresh cst (Resolved os))"
  by (simp add: calendar_refresh_def calendar_refresh_begin_def calendar_refresh_resume_def)

lemma contacts_refresh_rejected:
  "con_rows (contacts_refresh nst (Rejected e)) = con_rows nst
   \<and> \<not> con_loading (contacts_refresh nst (Rejected e))
   \<and> (\<exists>m. con_error (contacts_refresh nst (Rejected e)) = Some m \<and> m \<noteq> [])"
  by (simp add: contacts_refresh_def contacts_refresh_begin_def contacts_refresh_resume_def)

lemma contacts_refresh_resolved:
  "con_rows (contacts_refresh nst (Resolved cs)) = cs
   \<and> \<not> con_loading (contacts_refresh nst (Resolved cs))"
  by (simp add: contacts_refresh_def contacts_refresh_begin_def contacts_refresh_resume_def)

text \<open>
  C8. \<open>refresh\<close> on each of the three pages, run against a network. When \<open>fetch\<close>
  rejects or answers outside the range 200-299, the page keeps the collection it had, the
  loading flag is cleared and the error of the page is set to a message that is not
  empty, which the page displays. When \<open>fetch\<close> answers within the range with a JSON
  body, the collection is the returned sequence and the loading flag is cleared. The same
  holds of the handler for any rejected call.
\<close>

theorem load_outcomes:
  "((\<forall>r. dfetch (crm_request env (snd (kanban_refresh_begin kst))) = Response r \<longrightarrow> \<not> res_ok r) \<longrightarrow>
       kb_items (kanban_refresh kst (crm_run env dfetch (snd (kanban_refresh_begin kst)))) = kb_items kst
     \<and> \<not> kb_loading (kanban_refresh kst (crm_run env dfetch (snd (kanban_refresh_begin kst))))
     \<and> (\<exists>m. kb_error (kanban_refresh kst (crm_run env dfetch (snd (kanban_refresh_begin kst)))) = Some m
            \<and> m \<noteq> []))
   \<and> (dfetch (crm_request env (snd (kanban_refresh_begin kst))) = Response dres \<and> res_ok dres
        \<and> res_json dres = Inr ds \<longrightarrow>
       kb_items (kanban_refresh kst (crm_run env dfetch (snd (kanban_refresh_begin kst)))) = ds
     \<and> \<not> kb_loading (kanban_refresh kst (crm_run env dfetch (snd (kanban_refresh_begin kst)))))
   \<and> ((\<forall>r. ofetch (crm_request env (snd (calendar_refresh_begin cst))) = Response r \<longrightarrow> \<not> res_ok r) \<longrightarrow>
       cal_rows (calendar_refresh cst (crm_run env ofetch (snd (calendar_refresh_begin cst)))) = cal_rows cst
     \<and> \<not> cal_loading (calendar_refresh cst (crm_run env ofetch (snd (calendar_refresh_begin cst))))
     \<and> (\<exists>m. cal_error (calendar_refresh cst (crm_run env ofetch (snd (calendar_refresh_begin cst)))) = Some m
            \<and> m \<noteq> []))
   \<and> (ofetch (crm_request env (snd (calendar_refresh_begin cst))) = Response ores \<and> res_ok ores
        \<and> res_json ores = Inr os \<longrightarrow>
       cal_rows (calendar_refresh cst (crm_run env ofetch (snd (calendar_refresh_begin cst)))) = os
     \<and> \<not> cal_loading (calendar_refresh cst (crm_run env ofetch (snd (calendar_refresh_begin cst)))))
   \<and> ((\<forall>r. cfetch (crm_request env (snd (contacts_refresh_begin nst))) = Response r \<longrightarrow> \<not> res_ok r) \<longrightarrow>
       con_rows (contacts_refresh nst (crm_run env cfetch (snd (contacts_refresh_begin nst)))) = con_rows nst
     \<and> \<not> con_loading (contacts_refresh nst (crm_run env cfetch (snd (contacts_refresh_begin nst))))
     \<and> (\<exists>m. con_error (contacts_refresh nst (crm_run env cfetch (snd (contacts_refresh_begin nst)))) = Some m
            \<and> m \<noteq> []))
   \<and> (cfetch (crm_request env (snd (contacts_refresh_begin nst))) = Response cres \<and> res_ok cres
        \<and> res_json cres = Inr cs \<longrightarrow>
       con_rows (contacts_refresh nst (crm_run env cfetch (snd (contacts_refresh_begin nst)))) = cs
     \<and> \<not> con_loading (contacts_refresh nst (crm_run env cfetch (snd (contacts_refresh_begin nst)))))
   \<and> kb_items (kanban_refresh kst (Rejected e)) = kb_items kst
   \<and> \<not> kb_loading (kanban_refresh kst (Rejected e))
   \<and> (\<exists>m. kb_error (kanban_refresh kst (Rejected e)) = Some m \<and> m \<noteq> [])
   \<and> cal_rows (calendar_refresh cst (Rejected e)) = cal_rows cst
   \<and> \<not> cal_loading (calendar_refresh cst (Rejected e))
   \<and> (\<exists>m. cal_error (calendar_refresh cst (Rejected e)) = Some m \<and> m \<noteq> [])
   \<and> con_rows (contacts_refresh nst (Rejected e)) = con_rows nst
   \<and> \<not> con_loading (contacts_refresh nst (Rejected e))
   \<and> (\<exists>m. con_error (contacts_refresh nst (Rejected e)) = Some m \<and> m \<noteq> [])"
proof -
  have k1: "(\<forall>r. dfetch (crm_request env (snd (kanban_refresh_begin kst))) = Response r \<longrightarrow> \<not> res_ok r) \<longrightarrow>
       kb_items (kanban_refresh kst (crm_run env dfetch (snd (kanban_refresh_begin kst)))) = kb_items kst
     \<and> \<not> kb_loading (kanban_refresh kst (crm_run env dfetch (snd (kanban_refresh_begin kst))))
     \<and> (\<exists>m. kb_error (kanban_refresh kst (crm_run env dfetch (snd (kanban_refresh_begin kst)))) = Some m
            \<and> m \<noteq> [])"
  proof
    assume "\<forall>r. dfetch (crm_request env (snd (kanban_refresh_begin kst))) = Response r \<longrightarrow> \<not> res_ok r"
    from crm_run_failed [of dfetch env "snd (kanban_refresh_begin kst)", OF this] obtain m where
      "crm_run env dfetch (snd (kanban_refresh_begin kst)) = (Rejected m :: deal list outcome)" by blast
    then show "kb_items (kanban_refresh kst (crm_run env dfetch (snd (kanban_refresh_begin kst)))) = kb_items kst
     \<and> \<not> kb_loading (kanban_refresh kst (crm_run env dfetch (snd (kanban_refresh_begin kst))))
     \<and> (\<exists>m. kb_error (kanban_refresh kst (crm_run env dfetch (snd (kanban_refresh_begin kst)))) = Some m
            \<and> m \<noteq> [])"
      using kanban_refresh_rejected [of kst m] by simp
  qed
  have k2: "dfetch (crm_request env (snd (kanban_refresh_begin kst))) = Response dres \<and> res_ok dres
        \<and> res_json dres = Inr ds \<longrightarrow>
       kb_items (kanban_refresh kst (crm_run env dfetch (snd (kanban_refresh_begin kst)))) = ds
     \<and> \<not> kb_loading (kanban_refresh kst (crm_run env dfetch (snd (kanban_refresh_begin kst))))"
    using kanban_refresh_resolved [of kst ds] by (auto simp: crm_run_ok)
  have o1: "(\<forall>r. ofetch (crm_request env (snd (calendar_refresh_begin cst))) = Response r \<longrightarrow> \<not> res_ok r) \<longrightarrow>
       cal_rows (calendar_refresh cst (crm_run env ofetch (snd (calendar_refresh_begin cst)))) = cal_rows cst
     \<and> \<not> cal_loading (calendar_refresh cst (crm_run env ofetch (snd (calendar_refresh_begin cst))))
     \<and> (\<exists>m. cal_error (calendar_refresh cst (crm_run env ofetch (snd (calendar_refresh_begin cst)))) = Some m
            \<and> m \<noteq> [])"
  proof
    assume "\<forall>r. ofetch (crm_request env (snd (calendar_refresh_begin cst))) = Response r \<longrightarrow> \<not> res_ok r"
    from crm_run_failed [of ofetch env "snd (calendar_refresh_begin cst)", OF this] obtain m where
      "crm_run env ofetch (snd (calendar_refresh_begin cst)) = (Rejected m :: obligation list outcome)" by blast
    then show "cal_rows (calendar_refresh cst (crm_run env ofetch (snd (calendar_refresh_begin cst)))) = cal_rows cst
     \<and> \<not> cal_loading (calendar_refresh cst (crm_run env ofetch (snd (calendar_refresh_begin cst))))
     \<and> (\<exists>m. cal_error (calendar_refresh cst (crm_run env ofetch (snd (calendar_refresh_begin cst)))) = Some m
            \<and> m \<noteq> [])"
      using calendar_refresh_rejected [of cst m] by simp
  qed
  have o2: "ofetch (crm_request env (snd (calendar_refresh_begin cst))) = Response ores \<and> res_ok ores
        \<and> res_json ores = Inr os \<longrightarrow>
       cal_rows (calendar_refresh cst (crm_run env ofetch (snd (calendar_refresh_begin cst)))) = os
     \<and> \<not> cal_loading (calendar_refresh cst (crm_run env ofetch (snd (calendar_refresh_begin cst))))"
    using calendar_refresh_resolved [of cst os] by (auto simp: crm_run_ok)
  have c1: "(\<forall>r. cfetch (crm_request env (snd (contacts_refresh_begin nst))) = Response r \<longrightarrow> \<not> res_ok r) \<longrightarrow>
       con_rows (contacts_refresh nst (crm_run env cfetch (snd (contacts_refresh_begin nst)))) = con_rows nst
     \<and> \<not> con_loading (contacts_refresh nst (crm_run env cfetch (snd (contacts_refresh_begin nst))))
     \<and> (\<exists>m. con_error (contacts_refresh nst (crm_run env cfetch (snd (contacts_refresh_begin nst)))) = Some m
            \<and> m \<noteq> [])"
  proof
    assume "\<forall>r. cfetch (crm_request env (snd (contacts_refresh_begin nst))) = Response r \<longrightarrow> \<not> res_ok r"
    from crm_run_failed [of cfetch env "snd (contacts_refresh_begin nst)", OF this] obtain m where
      "crm_run env cfetch (snd (contacts_refresh_begin nst)) = (Rejected m :: contact list outcome)" by blast
    then show "con_rows (contacts_refresh nst (crm_run env cfetch (snd (contacts_refresh_begin nst)))) = con_rows nst
     \<and> \<not> con_loading (contacts_refresh nst (crm_run env cfetch (snd (contacts_refresh_begin nst))))
     \<and> (\<exists>m. con_error (contacts_refresh nst (crm_run env cfetch (snd (contacts_refresh_begin nst)))) = Some m
            \<and> m \<noteq> [])"
      using contacts_refresh_rejected [of nst m] by simp
  qed
  have c2: "cfetch (crm_request env (snd (contacts_refresh_begin nst))) = Response cres \<and> res_ok cres
        \<and> res_json cres = Inr cs \<longrightarrow>
       con_rows (contacts_refresh nst (crm_run env cfetch (snd (contacts_refresh_begin nst)))) = cs
     \<and> \<not> con_loading (contacts_refresh nst (crm_run env cfetch (snd (contacts_refresh_begin nst))))"
    using contacts_refresh_resolved [of nst cs] by (auto simp: crm_run_ok)
  note r = kanban_refresh_rejected [of kst e] calendar_refresh_rejected [of cst e]
    contacts_refresh_rejected [of nst e]
  show ?thesis
    apply (intro conjI)
    using k1 k2 o1 o2 c1 c2 r by blast+
qed

text \<open>A 500 with a body and a 200 on the pipeline page, a transport error on the
  obligations page, a 404 without a readable body on the contacts page.\<close>

theorem load_outcomes_witness:
  "kb_items (kanban_refresh ((sample_kanban [sample_deal 1 Novo])\<lparr>kb_loading := True\<rparr>)
      (crm_run \<lparr>vite_api_base_url = None, token = Some ''t''\<rparr>
         (\<lambda>req. Response \<lparr>res_status = 500, res_text = Some ''boom'', res_json = Inl ''x''\<rparr>)
         (snd (kanban_refresh_begin ((sample_kanban [sample_deal 1 Novo])\<lparr>kb_loading := True\<rparr>)))))
     = [sample_deal 1 Novo]
   \<and> \<not> kb_loading (kanban_refresh ((sample_kanban [sample_deal 1 Novo])\<lparr>kb_loading := True\<rparr>)
      (crm_run \<lparr>vite_api_base_url = None, token = Some ''t''\<rparr>
         (\<lambda>req. Response \<lparr>res_status = 500, res_text = Some ''boom'', res_json = Inl ''x''\<rparr>)
         (snd (kanban_refresh_begin ((sample_kanban [sample_deal 1 Novo])\<lparr>kb_loading := True\<rparr>)))))
   \<and> kb_error (kanban_refresh ((sample_kanban [sample_deal 1 Novo])\<lparr>kb_loading := True\<rparr>)
      (crm_run \<lparr>vite_api_base_url = None, token = Some ''t''\<rparr>
         (\<lambda>req. Response \<lparr>res_status = 500, res_text = Some ''boom'', res_json = Inl ''x''\<rparr>)
         (snd (kanban_refresh_begin ((sample_kanban [sample_deal 1 Novo])\<lparr>kb_loading := True\<rparr>)))))
     = Some ''boom''
   \<and> kb_items (kanban_refresh ((sample_kanban [sample_deal 1 Novo])\<lparr>kb_loading := True\<rparr>)
      (crm_run \<lparr>vite_api_base_url = None, token = Some ''t''\<rparr>
         (\<lambda>req. Response \<lparr>res_status = 200, res_text = Some ''[]'',
                           res_json = Inr [sample_deal 2 Ganho]\<rparr>)
         (snd (kanban_refresh_begin ((sample_kanban [sample_deal 1 Novo])\<lparr>kb_loading := True\<rparr>)))))
     = [sample_deal 2 Ganho]
   \<and> cal_rows (calendar_refresh (sample_calendar [sample_obligation 1 ''2024-01-01T09:00'' Open])
      (crm_run \<lparr>vite_api_base_url = None, token = Some ''t''\<rparr>
         (\<lambda>req. NetworkError [])
         (snd (calendar_refresh_begin (sample_calendar [sample_obligation 1 ''2024-01-01T09:00'' Open])))))
     = [sample_obligation 1 ''2024-01-01T09:00'' Open]
   \<and> con_rows (contacts_refresh (sample_contacts [sample_contact 1 ''Ana'' True])
      (crm_run \<lparr>vite_api_base_url = None, token = Some ''t''\<rparr>
         (\<lambda>req. Response \<lparr>res_status = 404, res_text = None, res_json = Inl ''x''\<rparr>)
         (snd (contacts_refresh_begin (sample_contacts [sample_contact 1 ''Ana'' True])))))
     = [sample_contact 1 ''Ana'' True]
   \<and> con_error (contacts_refresh (sample_contacts [sample_contact 1 ''Ana'' True])
      (crm_run \<lparr>vite_api_base_url = None, token = Some ''t''\<rparr>
         (\<lambda>req. Response \<lparr>res_status = 404, res_text = None, res_json = Inl ''x''\<rparr>)
         (snd (contacts_refresh_begin (sample_contacts [sample_contact 1 ''Ana'' True])))))
     = Some ''HTTP 404''"
proof -
  let ?env = "\<lparr>vite_api_base_url = None, token = Some ''t''\<rparr>"
  let ?kst = "(sample_kanban [sample_deal 1 Novo])\<lparr>kb_loading := True\<rparr>"
  let ?cst = "sample_calendar [sample_obligation 1 ''2024-01-01T09:00'' Open]"
  let ?nst = "sample_contacts [sample_contact 1 ''Ana'' True]"
  let ?r500 = "\<lparr>res_status = 500, res_text = Some ''boom'', res_json = (Inl ''x'' :: string + deal list)\<rparr>"
  let ?r200 = "\<lparr>res_status = 200, res_text = Some ''[]'', res_json = (Inr [sample_deal 2 Ganho] :: string + deal list)\<rparr>"
  let ?r404 = "\<lparr>res_status = 404, res_text = None, res_json = (Inl ''x'' :: string + contact list)\<rparr>"
  let ?off = "(\<lambda>req. NetworkError []) :: request \<Rightarrow> obligation list fetch_result"
  note F = load_outcomes [where env = ?env and kst = ?kst and dfetch = "\<lambda>req. Response ?r500"
      and cst = ?cst and ofetch = ?off and nst = ?nst and cfetch = "\<lambda>req. Response ?r404"]
  note S = load_outcomes [where env = ?env and kst = ?kst and dfetch = "\<lambda>req. Response ?r200"
      and dres = ?r200 and ds = "[sample_deal 2 Ganho]"]
  have h1: "\<forall>r. (\<lambda>req. Response ?r500) (crm_request ?env (snd (kanban_refresh_begin ?kst))) = Response r
      \<longrightarrow> \<not> res_ok r"
    by (simp add: res_ok_def)
  have h2: "\<forall>r. ?off (crm_request ?env (snd (calendar_refresh_begin ?cst))) = Response r \<longrightarrow> \<not> res_ok r"
    by simp
  have h3: "\<forall>r. (\<lambda>req. Response ?r404) (crm_request ?env (snd (contacts_refresh_begin ?nst))) = Response r
      \<longrightarrow> \<not> res_ok r"
    by (simp add: res_ok_def)
  have h4: "(\<lambda>req. Response ?r200) (crm_request ?env (snd (kanban_refresh_begin ?kst))) = Response ?r200
      \<and> res_ok ?r200 \<and> res_json ?r200 = Inr [sample_deal 2 Ganho]"
    by (simp add: res_ok_def)
  note k = F [THEN conjunct1, THEN mp, OF h1]
  note o = F [THEN conjunct2, THEN conjunct2, THEN conjunct1, THEN mp, OF h2]
  note c = F [THEN conjunct2, THEN conjunct2, THEN conjunct2, THEN conjunct2, THEN conjunct1,
      THEN mp, OF h3]
  note s = S [THEN conjunct2, THEN conjunct1, THEN mp, OF h4]
  have 1: "kb_items (kanban_refresh ?kst (crm_run ?env (\<lambda>req. Response ?r500)
      (snd (kanban_refresh_begin ?kst)))) = [sample_deal 1 Novo]"
    using k by (simp add: sample_kanban_def)
  have 2: "\<not> kb_loading (kanban_refresh ?kst (crm_run ?env (\<lambda>req. Response ?r500)
      (snd (kanban_refresh_begin ?kst))))"
    using k by simp
  have 3: "kb_error (kanban_refresh ?kst (crm_run ?env (\<lambda>req. Response ?r500)
      (snd (kanban_refresh_begin ?kst)))) = Some ''boom''"
    by (simp add: kanban_refresh_def kanban_refresh_begin_def kanban_refresh_resume_def
        crm_run_def http_settle_def res_ok_def)
  have 4: "kb_items (kanban_refresh ?kst (crm_run ?env (\<lambda>req. Response ?r200)
      (snd (kanban_refresh_begin ?kst)))) = [sample_deal 2 Ganho]"
    using s by simp
  have 5: "cal_rows (calendar_refresh ?cst (crm_run ?env ?off (snd (calendar_refresh_begin ?cst))))
      = [sample_obligation 1 ''2024-01-01T09:00'' Open]"
    using o by (simp add: sample_calendar_def)
  have 6: "con_rows (contacts_refresh ?nst (crm_run ?env (\<lambda>req. Response ?r404)
      (snd (contacts_refresh_begin ?nst)))) = [sample_contact 1 ''Ana'' True]"
    using c by (simp add: sample_contacts_def)
  have n: "show_nat 404 = ''404''" by code_simp
  have 7: "con_error (contacts_refresh ?nst (crm_run ?env (\<lambda>req. Response ?r404)
      (snd (contacts_refresh_begin ?nst)))) = Some ''HTTP 404''"
    by (simp add: contacts_refresh_def contacts_refresh_begin_def contacts_refresh_resume_def
        crm_run_def http_settle_def res_ok_def n)
  show ?thesis by (intro conjI 1 2 3 4 5 6 7)
qed

section \<open>The Authorization header\<close>

lemma authorization_http_request:
  "req_headers (http_request e path ini qry) ''Authorization'' =
     (case (case ini of None \<Rightarrow> None | Some i \<Rightarrow> (case in_headers i of None \<Rightarrow> None | Some h \<Rightarrow> h ''Authorization'')) of
        Some v \<Rightarrow> Some v
      | None \<Rightarrow> authHeaders e ''Authorization'')"
  by (auto simp: http_request_def map_add_def authHeaders_def split: option.splits)

lemma authorization_crm_request:
  "req_headers (crm_request e c) ''Authorization'' = authHeaders e ''Authorization''"
  by (cases c) (simp_all add: authorization_http_request with_body_def delete_init_def split: option.splits)

text \<open>
  C9, as amended. For each of the thirteen calls: when the local storage holds a
  non-empty token, the request carries the header \<open>Authorization\<close> with the value
  \<open>Bearer\<close> and that token; when it holds none, or an empty one, the request carries
  no \<open>Authorization\<close> header.
\<close>

theorem bearer_header_when_token:
  "(\<forall>t. token e = Some t \<and> t \<noteq> [] \<longrightarrow>
       req_headers (crm_request e c) ''Authorization'' = Some (''Bearer '' @ t))
   \<and> (token e = None \<or> token e = Some [] \<longrightarrow>
       req_headers (crm_request e c) ''Authorization'' = None)"
  by (auto simp: authorization_crm_request authHeaders_def)

text \<open>The claim as stated fails when no token is stored.\<close>

theorem no_token_no_header_counterexample:
  "req_headers (crm_request \<lparr>vite_api_base_url = None, token = None\<rparr> ListContacts) ''Authorization'' = None"
  by (simp add: http_request_def authHeaders_def map_add_def)

text \<open>A stored token and an empty one.\<close>

theorem bearer_header_witness:
  "req_headers (crm_request \<lparr>vite_api_base_url = None, token = Some ''abc''\<rparr> (DeleteDeal 7)) ''Authorization''
     = Some ''Bearer abc''
   \<and> req_headers (crm_request \<lparr>vite_api_base_url = None, token = Some []\<rparr> (DeleteDeal 7)) ''Authorization''
     = None"
  using bearer_header_when_token [of "\<lparr>vite_api_base_url = None, token = Some ''abc''\<rparr>" "DeleteDeal 7"]
    bearer_header_when_token [of "\<lparr>vite_api_base_url = None, token = Some []\<rparr>" "DeleteDeal 7"]
  by simp

section \<open>A move to the same column\<close>

text \<open>
  C10. A move of a deal to the column it is in does nothing: the handler returns before
  the snapshot, so the page is as it was, no optimistic update is applied and no call is
  issued (the second component of \<open>move_begin\<close> is \<open>None\<close>), whatever the network
  would have answered.
\<close>

theorem move_same_column_noop:
  "move_begin st d (d_column d) = (st, None) \<and> move st d (d_column d) out = st"
  by (simp add: move_def move_begin_def)

end
